theory Spec2Isabelle
  imports Complex_Main "HOL-Library.Word" "HOL-Library.AList"
begin

unbundle bit_operations_syntax

section \<open>Data model of download_site.py\<close>

text \<open>
  A Python \<open>str\<close> is a sequence of Unicode code points, a \<open>bytes\<close> object a sequence of
  octets. A \<open>float\<close> timestamp is read as the real number it denotes: the program only
  tests timestamps for truth (non-zero) and compares them with \<open>\<le>\<close>.
\<close>

type_synonym str = "nat list"
type_synonym byte = "8 word"
type_synonym bytes = "byte list"

text \<open>An ASCII literal of the source, as the \<open>str\<close> of its code points.\<close>

definition lit :: "string \<Rightarrow> str" where
  "lit s = map of_char s"

text \<open>The exceptions the program can meet; it never inspects them, it only logs them.\<close>

datatype exn =
  RequestException nat
| OSError
| ParseError
| JSONDecodeError
| AttributeError
| ValueError
| ReadabilityError

text \<open>The three classifications \<open>'skipped'\<close>, \<open>'saved'\<close> and \<open>'error'\<close> of \<open>process_entry\<close>.\<close>

datatype status = Skipped | Saved | Error

text \<open>The records handed to \<open>logging\<close>, without their formatting.\<close>

datatype log_record =
  Readability_not_installed
| Readability_cleaning_failed str exn
| Error_fetching str exn int
| Outcome status str

text \<open>
  What a file holds: the bytes of an artifact (\<open>open(dest, 'wb')\<close>), the JSON object
  \<open>{'last_run_time': t}\<close> of the run marker (\<open>None\<close> when the object has no such member), or
  the rows of the CSV mapping below its header row.
\<close>

datatype file_content =
  Artifact bytes
| Run_marker "real option"
| Mapping_csv "(str \<times> str) list"

text \<open>The \<open>argparse.Namespace\<close>, with the attribute \<open>last_run_time\<close> that \<open>main\<close> adds.\<close>

record args =
  sitemap_url :: str
  output_dir :: str
  limit :: "int option"
  force :: bool
  workers :: int
  retries :: int
  readability :: bool
  last_run_time :: "real option"

text \<open>
  The mutable world around the program. \<open>tick\<close> counts the calls that the outside world
  has answered so far: the requests, \<open>os.makedirs\<close>, every \<open>open\<close> for writing and every
  \<open>time.time()\<close>. \<open>requests\<close> lists the URLs passed to \<open>fetch_url\<close> in order, \<open>files\<close> is
  the file system and \<open>log\<close> the logging output.
\<close>

record world =
  tick :: nat
  requests :: "str list"
  files :: "str \<rightharpoonup> file_content"
  log :: "log_record list"

datatype sys_call = Makedirs str | Open_write str

text \<open>One \<open>url\<close> element of the parsed sitemap: the text of its \<open>loc\<close> and \<open>lastmod\<close>
  children. The outer \<open>None\<close> is a missing child, the inner one a child without text.\<close>

type_synonym url_elem = "str option option \<times> str option option"

text \<open>
  The libraries and the outside world, as the program sees them. What a call answers may
  depend on when it is made, so the network, the operating system and the clock take the
  tick of the call.
  \<^item> \<open>have_readability\<close>: the module constant \<open>HAVE_READABILITY\<close>;
  \<^item> \<open>http_get\<close>: \<open>requests.get(url)\<close> followed by \<open>raise_for_status()\<close>;
  \<^item> \<open>os_error\<close>: whether the system call raises \<open>OSError\<close>;
  \<^item> \<open>clock\<close>: \<open>time.time()\<close>;
  \<^item> \<open>strptime_mktime\<close>: \<open>time.mktime(time.strptime(s, '%Y-%m-%dT%H:%M:%S%z'))\<close>,
    \<open>None\<close> when either call raises;
  \<^item> \<open>summary\<close>: the body of the inner \<open>try\<close>, that is, decoding the payload, building the
    readability \<open>Document\<close>, taking its \<open>summary()\<close> and encoding the result;
  \<^item> \<open>et_urls\<close>: \<open>ET.fromstring(xml_data).findall('.//ns:url')\<close> with the children of
    each element found.
\<close>

record env =
  have_readability :: bool
  http_get :: "str \<Rightarrow> nat \<Rightarrow> exn + bytes"
  os_error :: "sys_call \<Rightarrow> nat \<Rightarrow> bool"
  clock :: "nat \<Rightarrow> real"
  strptime_mktime :: "str \<Rightarrow> real option"
  summary :: "bytes \<Rightarrow> exn + bytes"
  et_urls :: "bytes \<Rightarrow> exn + url_elem list"

section \<open>Strings, paths and file names\<close>

text \<open>\<open>str.encode('utf-8')\<close>, one code point at a time. The program encodes a URL only
  after \<open>requests.get\<close> has answered for it, so the URL holds no lone surrogate and the
  encoding does not raise.\<close>

definition utf8_char :: "nat \<Rightarrow> bytes" where
  "utf8_char c =
     (if c < 0x80 then [of_nat c]
      else if c < 0x800 then
        [of_nat (0xC0 + c div 0x40), of_nat (0x80 + c mod 0x40)]
      else if c < 0x10000 then
        [of_nat (0xE0 + c div 0x1000), of_nat (0x80 + c div 0x40 mod 0x40),
         of_nat (0x80 + c mod 0x40)]
      else
        [of_nat (0xF0 + c div 0x40000), of_nat (0x80 + c div 0x1000 mod 0x40),
         of_nat (0x80 + c div 0x40 mod 0x40), of_nat (0x80 + c mod 0x40)])"

definition encode_utf8 :: "str \<Rightarrow> bytes" where
  "encode_utf8 s = concat (map utf8_char s)"

text \<open>The strings that \<open>encode\<close> accepts: Python raises \<open>UnicodeEncodeError\<close> on a lone
  surrogate, and a \<open>str\<close> holds no code point beyond \<open>0x10FFFF\<close>.\<close>

definition scalar_values :: "str \<Rightarrow> bool" where
  "scalar_values s = list_all (\<lambda>c. c < 0xD800 \<or> (0xDFFF < c \<and> c < 0x110000)) s"

subsection \<open>hashlib.md5\<close>

text \<open>
  The MD5 message digest (RFC 1321) that \<open>hashlib.md5(data).digest()\<close> computes: the
  message is padded to a multiple of 64 bytes, and each block of sixteen little-endian
  32-bit words goes through 64 rounds on a state of four 32-bit words.
\<close>

definition md5_K :: "32 word list" where
  "md5_K =
    [0xd76aa478, 0xe8c7b756, 0x242070db, 0xc1bdceee, 0xf57c0faf, 0x4787c62a, 0xa8304613, 0xfd469501,
     0x698098d8, 0x8b44f7af, 0xffff5bb1, 0x895cd7be, 0x6b901122, 0xfd987193, 0xa679438e, 0x49b40821,
     0xf61e2562, 0xc040b340, 0x265e5a51, 0xe9b6c7aa, 0xd62f105d, 0x02441453, 0xd8a1e681, 0xe7d3fbc8,
     0x21e1cde6, 0xc33707d6, 0xf4d50d87, 0x455a14ed, 0xa9e3e905, 0xfcefa3f8, 0x676f02d9, 0x8d2a4c8a,
     0xfffa3942, 0x8771f681, 0x6d9d6122, 0xfde5380c, 0xa4beea44, 0x4bdecfa9, 0xf6bb4b60, 0xbebfbc70,
     0x289b7ec6, 0xeaa127fa, 0xd4ef3085, 0x04881d05, 0xd9d4d039, 0xe6db99e5, 0x1fa27cf8, 0xc4ac5665,
     0xf4292244, 0x432aff97, 0xab9423a7, 0xfc93a039, 0x655b59c3, 0x8f0ccc92, 0xffeff47d, 0x85845dd1,
     0x6fa87e4f, 0xfe2ce6e0, 0xa3014314, 0x4e0811a1, 0xf7537e82, 0xbd3af235, 0x2ad7d2bb, 0xeb86d391]"

definition md5_s :: "nat list" where
  "md5_s =
    [7, 12, 17, 22, 7, 12, 17, 22, 7, 12, 17, 22, 7, 12, 17, 22,
     5, 9, 14, 20, 5, 9, 14, 20, 5, 9, 14, 20, 5, 9, 14, 20,
     4, 11, 16, 23, 4, 11, 16, 23, 4, 11, 16, 23, 4, 11, 16, 23,
     6, 10, 15, 21, 6, 10, 15, 21, 6, 10, 15, 21, 6, 10, 15, 21]"

text \<open>The \<open>n\<close> low bytes of a word, least significant first, and a word from such bytes.\<close>

definition le_bytes :: "nat \<Rightarrow> 'a::len word \<Rightarrow> bytes" where
  "le_bytes n w = map (\<lambda>i. ucast (drop_bit (8 * i) w)) [0..<n]"

definition le_word :: "bytes \<Rightarrow> 32 word" where
  "le_word bs = foldr (\<lambda>b w. ucast b + push_bit 8 w) bs 0"

text \<open>Padding: the byte \<open>0x80\<close>, zeros up to 56 modulo 64, the length in bits on 64 bits.\<close>

definition md5_pad :: "bytes \<Rightarrow> bytes" where
  "md5_pad msg =
     msg @ [0x80] @ replicate ((119 - length msg mod 64) mod 64) 0 @
     le_bytes 8 (of_nat (8 * length msg) :: 64 word)"

text \<open>Rotation of a 32-bit word to the left by \<open>n\<close> bits, for \<open>0 < n < 32\<close>.\<close>

definition rotate_left :: "nat \<Rightarrow> 32 word \<Rightarrow> 32 word" where
  "rotate_left n x = push_bit n x OR drop_bit (32 - n) x"

type_synonym md5_state = "32 word \<times> 32 word \<times> 32 word \<times> 32 word"

definition md5_round :: "32 word list \<Rightarrow> nat \<Rightarrow> md5_state \<Rightarrow> md5_state" where
  "md5_round M i st =
     (case st of (A, B, C, D) \<Rightarrow>
        let (F, g) =
              (if i < 16 then ((B AND C) OR (NOT B AND D), i)
               else if i < 32 then ((D AND B) OR (NOT D AND C), (5 * i + 1) mod 16)
               else if i < 48 then (B XOR C XOR D, (3 * i + 5) mod 16)
               else (C XOR (B OR NOT D), (7 * i) mod 16))
        in (D, B + rotate_left (md5_s ! i) (F + A + md5_K ! i + M ! g), B, C))"

definition md5_block :: "md5_state \<Rightarrow> bytes \<Rightarrow> md5_state" where
  "md5_block st chunk =
     (let M = map (\<lambda>j. le_word (take 4 (drop (4 * j) chunk))) [0..<16]
      in case (st, fold (md5_round M) [0..<64] st) of
           ((a0, b0, c0, d0), (A, B, C, D)) \<Rightarrow> (a0 + A, b0 + B, c0 + C, d0 + D))"

definition md5_digest :: "bytes \<Rightarrow> bytes" where
  "md5_digest msg =
     (let p = md5_pad msg
      in case fold (\<lambda>k st. md5_block st (take 64 (drop (64 * k) p))) [0..<length p div 64]
                (0x67452301, 0xefcdab89, 0x98badcfe, 0x10325476) of
           (a0, b0, c0, d0) \<Rightarrow> le_bytes 4 a0 @ le_bytes 4 b0 @ le_bytes 4 c0 @ le_bytes 4 d0)"

subsection \<open>File names and paths\<close>

text \<open>\<open>hexdigest()\<close>: two lower-case hexadecimal digits for each byte of the digest.\<close>

definition hex_digit :: "nat \<Rightarrow> nat" where
  "hex_digit n = (if n < 10 then 48 + n else 87 + n)"

definition hex_byte :: "byte \<Rightarrow> str" where
  "hex_byte b = [hex_digit (unat b div 16), hex_digit (unat b mod 16)]"

definition hexdigest :: "bytes \<Rightarrow> str" where
  "hexdigest d = concat (map hex_byte d)"

definition url_to_filename :: "str \<Rightarrow> str" where
  "url_to_filename url = hexdigest (md5_digest (encode_utf8 url)) @ lit ''.html''"

text \<open>\<open>os.path.join\<close> of two components, as \<open>posixpath\<close> defines it (47 is the slash).\<close>

definition path_join :: "str \<Rightarrow> str \<Rightarrow> str" where
  "path_join a b =
     (if b \<noteq> [] \<and> hd b = 47 then b
      else if a = [] \<or> last a = 47 then a @ b
      else a @ [47] @ b)"

definition LAST_RUN_FILE :: str where
  "LAST_RUN_FILE = lit ''.last_run.json''"

definition MAPPING_FILE :: str where
  "MAPPING_FILE = lit ''url_mapping.csv''"

text \<open>\<open>str.isspace\<close> on one code point and \<open>str.strip()\<close>.\<close>

definition isspace :: "nat \<Rightarrow> bool" where
  "isspace c \<longleftrightarrow>
     (9 \<le> c \<and> c \<le> 13) \<or> (28 \<le> c \<and> c \<le> 32) \<or> c = 133 \<or> c = 160 \<or> c = 5760 \<or>
     (8192 \<le> c \<and> c \<le> 8202) \<or> c = 8232 \<or> c = 8233 \<or> c = 8239 \<or> c = 8287 \<or> c = 12288"

definition strip :: "str \<Rightarrow> str" where
  "strip s = rev (dropWhile isspace (rev (dropWhile isspace s)))"

section \<open>The operations on the world\<close>

definition fetch_url :: "env \<Rightarrow> str \<Rightarrow> world \<Rightarrow> (exn + bytes) \<times> world" where
  "fetch_url env url w =
     (http_get env url (tick w),
      w\<lparr>tick := Suc (tick w), requests := requests w @ [url]\<rparr>)"

text \<open>\<open>with open(path, mode) as f: f.write(...)\<close>: the file is replaced as a whole, or
  opening it raises and the file system stays as it is.\<close>

definition write_file :: "env \<Rightarrow> str \<Rightarrow> file_content \<Rightarrow> world \<Rightarrow> (exn + unit) \<times> world" where
  "write_file env path content w =
     (if os_error env (Open_write path) (tick w)
      then (Inl OSError, w\<lparr>tick := Suc (tick w)\<rparr>)
      else (Inr (), w\<lparr>tick := Suc (tick w), files := (files w)(path \<mapsto> content)\<rparr>))"

definition makedirs :: "env \<Rightarrow> str \<Rightarrow> world \<Rightarrow> (exn + unit) \<times> world" where
  "makedirs env path w =
     (if os_error env (Makedirs path) (tick w) then Inl OSError else Inr (),
      w\<lparr>tick := Suc (tick w)\<rparr>)"

definition logging :: "log_record \<Rightarrow> world \<Rightarrow> world" where
  "logging r w = w\<lparr>log := log w @ [r]\<rparr>"

fun parse_elems :: "url_elem list \<Rightarrow> exn + (str \<times> str option) list" where
  "parse_elems [] = Inr []"
| "parse_elems ((loc, lastmod) # elems) =
     (case loc of
        Some (Some text) \<Rightarrow>
          (if text \<noteq> [] then
             (case lastmod of
                Some None \<Rightarrow> Inl AttributeError
              | Some (Some lm) \<Rightarrow>
                  (case parse_elems elems of
                     Inl e \<Rightarrow> Inl e
                   | Inr entries \<Rightarrow> Inr ((strip text, Some (strip lm)) # entries))
              | None \<Rightarrow>
                  (case parse_elems elems of
                     Inl e \<Rightarrow> Inl e
                   | Inr entries \<Rightarrow> Inr ((strip text, None) # entries)))
           else parse_elems elems)
      | _ \<Rightarrow> parse_elems elems)"

definition parse_sitemap :: "env \<Rightarrow> bytes \<Rightarrow> exn + (str \<times> str option) list" where
  "parse_sitemap env xml_data =
     (case et_urls env xml_data of
        Inl e \<Rightarrow> Inl e
      | Inr elems \<Rightarrow> parse_elems elems)"

definition load_last_run :: "str \<Rightarrow> world \<Rightarrow> exn + real option" where
  "load_last_run dir w =
     (case files w (path_join dir LAST_RUN_FILE) of
        None \<Rightarrow> Inr None
      | Some (Run_marker t) \<Rightarrow> Inr t
      | Some _ \<Rightarrow> Inl JSONDecodeError)"

text \<open>\<open>time.time()\<close>: a call of its own, answered by the clock at its tick.\<close>

definition time_time :: "env \<Rightarrow> world \<Rightarrow> real \<times> world" where
  "time_time env w = (clock env (tick w), w\<lparr>tick := Suc (tick w)\<rparr>)"

text \<open>\<open>save_last_run\<close> opens the marker file first; \<open>time.time()\<close> is called inside the
  \<open>with\<close> block, when the file is open, and its value is what \<open>json.dump\<close> writes.\<close>

definition save_last_run :: "env \<Rightarrow> str \<Rightarrow> world \<Rightarrow> (exn + unit) \<times> world" where
  "save_last_run env dir w =
     (let path = path_join dir LAST_RUN_FILE
      in if os_error env (Open_write path) (tick w)
         then (Inl OSError, w\<lparr>tick := Suc (tick w)\<rparr>)
         else case time_time env (w\<lparr>tick := Suc (tick w)\<rparr>) of
                (now, w1) \<Rightarrow>
                  (Inr (), w1\<lparr>files := (files w1)(path \<mapsto> Run_marker (Some now))\<rparr>))"

definition write_mapping :: "env \<Rightarrow> str \<Rightarrow> (str \<times> str) list \<Rightarrow> world \<Rightarrow> (exn + unit) \<times> world"
  where
  "write_mapping env dir url_map w =
     write_file env (path_join dir MAPPING_FILE) (Mapping_csv url_map) w"

section \<open>The fetch engine: process_entry\<close>

text \<open>
  The \<open>if\<close> at the head of \<open>process_entry\<close>. Its three conjuncts are tested for truth as
  Python does: \<open>None\<close> and \<open>0.0\<close> are false for the marker, \<open>None\<close> and the empty string for
  \<open>lastmod\<close>. An exception of the parse is swallowed by the \<open>except\<close> clause.
\<close>

definition skip_check :: "env \<Rightarrow> args \<Rightarrow> str option \<Rightarrow> bool" where
  "skip_check env a lastmod =
     (if force a then False
      else case last_run_time a of
        None \<Rightarrow> False
      | Some t \<Rightarrow>
          (if t = 0 then False
           else case lastmod of
             None \<Rightarrow> False
           | Some lm \<Rightarrow>
               (if lm = [] then False
                else case strptime_mktime env lm of
                  None \<Rightarrow> False
                | Some ts \<Rightarrow> ts \<le> t)))"

text \<open>How the body of the \<open>try\<close> inside the loop ends: with a \<open>return\<close>, or with an exception
  that the \<open>except\<close> clause of the loop catches.\<close>

datatype ending = Return status | Raise exn

text \<open>The lines from \<open>fname = url_to_filename(url)\<close> to \<open>return url, 'saved'\<close>.\<close>

definition store :: "env \<Rightarrow> args \<Rightarrow> str \<Rightarrow> bytes \<Rightarrow> (str \<times> str) list \<Rightarrow> world
    \<Rightarrow> ending \<times> (str \<times> str) list \<times> world" where
  "store env a url content url_map w =
     (let fname = url_to_filename url;
          dest = path_join (output_dir a) fname
      in case write_file env dest (Artifact content) w of
           (Inl e, w') \<Rightarrow> (Raise e, url_map, w')
         | (Inr _, w') \<Rightarrow> (Return Saved, AList.update url fname url_map, w'))"

text \<open>One pass through the body of the \<open>try\<close>.\<close>

definition attempt :: "env \<Rightarrow> args \<Rightarrow> str \<Rightarrow> (str \<times> str) list \<Rightarrow> world
    \<Rightarrow> ending \<times> (str \<times> str) list \<times> world" where
  "attempt env a url url_map w =
     (case fetch_url env url w of
        (Inl e, w1) \<Rightarrow> (Raise e, url_map, w1)
      | (Inr content, w1) \<Rightarrow>
          (if readability a then
             (if \<not> have_readability env then
                (Return Error, url_map, logging Readability_not_installed w1)
              else
                (case summary env content of
                   Inl e \<Rightarrow>
                     store env a url content url_map
                       (logging (Readability_cleaning_failed url e) w1)
                 | Inr cleaned \<Rightarrow> store env a url cleaned url_map w1))
           else store env a url content url_map w1))"

text \<open>The \<open>while attempts > 0\<close> loop and the \<open>return url, 'error'\<close> behind it.\<close>

function retry_loop :: "env \<Rightarrow> args \<Rightarrow> str \<Rightarrow> int \<Rightarrow> (str \<times> str) list \<Rightarrow> world
    \<Rightarrow> status \<times> (str \<times> str) list \<times> world" where
  "retry_loop env a url attempts url_map w =
     (if attempts > 0 then
        (case attempt env a url url_map w of
           (Return st, url_map', w') \<Rightarrow> (st, url_map', w')
         | (Raise e, url_map', w') \<Rightarrow>
             retry_loop env a url (attempts - 1) url_map'
               (logging (Error_fetching url e (attempts - 1)) w'))
      else (Error, url_map, w))"
  by pat_completeness auto
termination
  by (relation "measure (\<lambda>(env, a, url, attempts, url_map, w). nat attempts)") auto

definition process_entry :: "env \<Rightarrow> str \<Rightarrow> str option \<Rightarrow> args \<Rightarrow> (str \<times> str) list \<Rightarrow> world
    \<Rightarrow> (str \<times> status) \<times> (str \<times> str) list \<times> world" where
  "process_entry env url lastmod a url_map w =
     (if skip_check env a lastmod then ((url, Skipped), url_map, w)
      else case retry_loop env a url (retries a) url_map w of
        (st, url_map', w') \<Rightarrow> ((url, st), url_map', w'))"

section \<open>The run: main\<close>

text \<open>\<open>entries[:n]\<close> as Python slices a list: a negative bound counts from the end.\<close>

definition slice_to :: "'a list \<Rightarrow> int \<Rightarrow> 'a list" where
  "slice_to xs n = (if 0 \<le> n then take (nat n) xs else take (nat (int (length xs) + n)) xs)"

text \<open>\<open>if args.limit: entries = entries[:args.limit]\<close>; \<open>None\<close> and \<open>0\<close> are false.\<close>

definition apply_limit :: "args \<Rightarrow> 'a list \<Rightarrow> 'a list" where
  "apply_limit a entries =
     (case limit a of
        None \<Rightarrow> entries
      | Some n \<Rightarrow> if n = 0 then entries else slice_to entries n)"

text \<open>
  The pool and the loop over \<open>as_completed\<close>. The workers are run one after the other, in
  the order in which the entries were submitted, and the outcome of each is logged when it
  completes; interleavings of several workers are outside this model.
\<close>

fun run_entries :: "env \<Rightarrow> args \<Rightarrow> (str \<times> str option) list \<Rightarrow> (str \<times> str) list \<Rightarrow> world
    \<Rightarrow> (str \<times> status) list \<times> (str \<times> str) list \<times> world" where
  "run_entries env a [] url_map w = ([], url_map, w)"
| "run_entries env a ((url, lm) # entries) url_map w =
     (case process_entry env url lm a url_map w of
        (r, url_map', w') \<Rightarrow>
          (case run_entries env a entries url_map' (logging (Outcome (snd r) (fst r)) w') of
             (rs, url_map'', w'') \<Rightarrow> (r # rs, url_map'', w'')))"

text \<open>
  \<open>main\<close> up to the creation of the pool: the output directory, the marker of the last run,
  the sitemap and its entries, the limit. \<open>ThreadPoolExecutor\<close> raises \<open>ValueError\<close> when
  \<open>max_workers\<close> is not positive. Any exception here ends the program.
\<close>

definition startup :: "env \<Rightarrow> args \<Rightarrow> world
    \<Rightarrow> (exn + args \<times> (str \<times> str option) list) \<times> world" where
  "startup env a0 w =
     (case makedirs env (output_dir a0) w of
        (Inl e, w1) \<Rightarrow> (Inl e, w1)
      | (Inr _, w1) \<Rightarrow>
          (case load_last_run (output_dir a0) w1 of
             Inl e \<Rightarrow> (Inl e, w1)
           | Inr t \<Rightarrow>
               (let a = a0\<lparr>last_run_time := t\<rparr>
                in case fetch_url env (sitemap_url a) w1 of
                     (Inl e, w2) \<Rightarrow> (Inl e, w2)
                   | (Inr xml_data, w2) \<Rightarrow>
                       (case parse_sitemap env xml_data of
                          Inl e \<Rightarrow> (Inl e, w2)
                        | Inr entries \<Rightarrow>
                            (if workers a \<le> 0 then (Inl ValueError, w2)
                             else (Inr (a, apply_limit a entries), w2))))))"

text \<open>The last two lines of \<open>main\<close>: \<open>save_last_run\<close>, then \<open>write_mapping\<close>.\<close>

definition persist :: "env \<Rightarrow> args \<Rightarrow> (str \<times> str) list \<Rightarrow> world \<Rightarrow> (exn + unit) \<times> world" where
  "persist env a url_map w =
     (case save_last_run env (output_dir a) w of
        (Inl e, w1) \<Rightarrow> (Inl e, w1)
      | (Inr _, w1) \<Rightarrow> write_mapping env (output_dir a) url_map w1)"

text \<open>\<open>main\<close> returns nothing; the model hands back the outcomes that its loop consumed.\<close>

definition main :: "env \<Rightarrow> args \<Rightarrow> world \<Rightarrow> (exn + (str \<times> status) list) \<times> world" where
  "main env a0 w =
     (case startup env a0 w of
        (Inl e, w1) \<Rightarrow> (Inl e, w1)
      | (Inr (a, entries), w1) \<Rightarrow>
          (case run_entries env a entries [] w1 of
             (results, url_map, w2) \<Rightarrow>
               (case persist env a url_map w2 of
                  (Inl e, w3) \<Rightarrow> (Inl e, w3)
                | (Inr _, w3) \<Rightarrow> (Inr results, w3))))"

text \<open>The rows that a list of outcomes puts into a mapping: one for each \<open>'saved'\<close>
  outcome, written as the assignment \<open>url_map[url] = fname\<close> writes it.\<close>

definition rows_of :: "(str \<times> status) list \<Rightarrow> (str \<times> str) list \<Rightarrow> (str \<times> str) list" where
  "rows_of rs m =
     fold (\<lambda>(u, st) m. if st = Saved then AList.update u (url_to_filename u) m else m) rs m"

section \<open>Example inputs\<close>

text \<open>
  A small world for trying the program: every request is answered with the bytes of its
  URL, no system call fails, the clock advances by one second at each tick, two timestamps
  parse, and the sitemap lists five pages.
\<close>

definition example_env :: env where
  "example_env =
     \<lparr>have_readability = True,
      http_get = (\<lambda>url t. Inr (encode_utf8 url)),
      os_error = (\<lambda>c t. False),
      clock = (\<lambda>t. 1700000000 + real t),
      strptime_mktime =
        (\<lambda>s. if s = lit ''2020-01-01T00:00:00+00:00'' then Some 1577836800
             else if s = lit ''1970-01-01T00:00:00+00:00'' then Some 0
             else None),
      summary = (\<lambda>b. Inr (take 4 b)),
      et_urls =
        (\<lambda>b. Inr [(Some (Some (lit ''http://a/1'')), None),
                  (Some (Some (lit '' http://a/2 '')),
                   Some (Some (lit ''2020-01-01T00:00:00+00:00''))),
                  (Some (Some (lit ''http://a/3'')), Some (Some (lit ''yesterday''))),
                  (Some (Some (lit ''http://a/4'')), None),
                  (Some (Some (lit ''http://a/5'')), None)])\<rparr>"

definition example_args :: args where
  "example_args =
     \<lparr>sitemap_url = lit ''http://a/sitemap.xml'',
      output_dir = lit ''tmp'',
      limit = None,
      force = False,
      workers = 5,
      retries = 3,
      readability = False,
      last_run_time = Some 1609459200\<rparr>"

definition world0 :: world where
  "world0 = \<lparr>tick = 0, requests = [], files = Map.empty, log = []\<rparr>"

text \<open>A server that fails the first request and a cleaner that always raises; a file
  system on which no file can be opened for writing.\<close>

definition flaky_env :: env where
  "flaky_env =
     example_env\<lparr>http_get := (\<lambda>url t. if t = 0 then Inl (RequestException 503)
                                      else Inr [0x3C, 0x70, 0x3E]),
                 summary := (\<lambda>b. Inl ReadabilityError)\<rparr>"

definition read_only_env :: env where
  "read_only_env = example_env\<lparr>os_error := (\<lambda>c t. case c of Open_write p \<Rightarrow> True | _ \<Rightarrow> False)\<rparr>"

text \<open>A file system on which the marker file cannot be opened for writing.\<close>

definition no_marker_env :: env where
  "no_marker_env = example_env\<lparr>os_error := (\<lambda>c t. c = Open_write (lit ''tmp/.last_run.json''))\<rparr>"

text \<open>A server that knows every page but the first.\<close>

definition half_env :: env where
  "half_env =
     example_env\<lparr>http_get := (\<lambda>url t. if url = lit ''http://a/1'' then Inl (RequestException 404)
                                      else Inr (encode_utf8 url))\<rparr>"

section \<open>Artifact names\<close>

text \<open>The UTF-8 encoding of a code point, byte by byte, as natural numbers.\<close>

lemma utf8_char_unat:
  assumes "c < 0x110000"
  shows "map unat (utf8_char c) =
     (if c < 0x80 then [c]
      else if c < 0x800 then [0xC0 + c div 0x40, 0x80 + c mod 0x40]
      else if c < 0x10000 then
        [0xE0 + c div 0x1000, 0x80 + c div 0x40 mod 0x40, 0x80 + c mod 0x40]
      else
        [0xF0 + c div 0x40000, 0x80 + c div 0x1000 mod 0x40,
         0x80 + c div 0x40 mod 0x40, 0x80 + c mod 0x40])"
  using assms by (simp add: utf8_char_def unat_of_nat del: of_nat_add)

lemma utf8_char_nonempty: "utf8_char c \<noteq> []"
  by (simp add: utf8_char_def)

lemma digits64:
  fixes c :: nat
  shows "c div 0x40 * 0x40 + c mod 0x40 = c"
    and "c div 0x1000 * 0x1000 + c div 0x40 mod 0x40 * 0x40 + c mod 0x40 = c"
    and "c div 0x40000 * 0x40000 + c div 0x1000 mod 0x40 * 0x1000 +
         c div 0x40 mod 0x40 * 0x40 + c mod 0x40 = c"
proof -
  have horner2: "A * 0x1000 + B * 0x40 + C = (A * 0x40 + B) * 0x40 + C" for A B C :: nat
    by (simp add: algebra_simps)
  have horner3: "A * 0x40000 + B * 0x1000 + C * 0x40 + D =
      ((A * 0x40 + B) * 0x40 + C) * 0x40 + D" for A B C D :: nat
    by (simp add: algebra_simps)
  have d2: "c div 0x1000 = c div 0x40 div 0x40"
    using div_mult2_eq[of c "0x40" "0x40"] by simp
  have d3: "c div 0x40000 = c div 0x40 div 0x40 div 0x40"
    using div_mult2_eq[of c "0x1000" "0x40"] by (simp add: d2)
  have m3: "c div 0x1000 mod 0x40 = c div 0x40 div 0x40 mod 0x40"
    by (simp only: d2)
  show "c div 0x40 * 0x40 + c mod 0x40 = c"
    by simp
  show "c div 0x1000 * 0x1000 + c div 0x40 mod 0x40 * 0x40 + c mod 0x40 = c"
    unfolding horner2 d2 by (simp only: div_mult_mod_eq)
  show "c div 0x40000 * 0x40000 + c div 0x1000 mod 0x40 * 0x1000 +
         c div 0x40 mod 0x40 * 0x40 + c mod 0x40 = c"
    unfolding horner3 d3 m3 by (simp only: div_mult_mod_eq)
qed

lemma utf8_char_prefix_free:
  assumes c: "c < 0x110000" and d: "d < 0x110000"
    and eq: "utf8_char c @ xs = utf8_char d @ ys"
  shows "c = d \<and> xs = ys"
proof -
  define dec :: "nat list \<Rightarrow> nat \<times> nat" where
    "dec = (\<lambda>bs. case bs of
        [] \<Rightarrow> (0, 0)
      | b # r \<Rightarrow>
          if b < 0x80 then (b, 1)
          else if b < 0xE0 then ((b - 0xC0) * 0x40 + (r ! 0 - 0x80), 2)
          else if b < 0xF0 then
            ((b - 0xE0) * 0x1000 + (r ! 0 - 0x80) * 0x40 + (r ! 1 - 0x80), 3)
          else ((b - 0xF0) * 0x40000 + (r ! 0 - 0x80) * 0x1000 + (r ! 1 - 0x80) * 0x40 +
                 (r ! 2 - 0x80), 4))"
  have dec: "dec (map unat (utf8_char x) @ r) = (x, length (utf8_char x))"
    if "x < 0x110000" for x r
  proof -
    have len: "length (utf8_char x) = length (map unat (utf8_char x))" by simp
    have lead: "x < 0x800 \<Longrightarrow> x div 0x40 < 0x20" "x < 0x10000 \<Longrightarrow> x div 0x1000 < 0x10"
      by (simp_all add: less_mult_imp_div_less)
    consider "x < 0x80" | "0x80 \<le> x" "x < 0x800" | "0x800 \<le> x" "x < 0x10000" | "0x10000 \<le> x"
      by linarith
    then show ?thesis
    proof cases
      case 1
      then show ?thesis
        unfolding len utf8_char_unat[OF that] by (simp add: dec_def)
    next
      case 2
      with lead(1) show ?thesis
        unfolding len utf8_char_unat[OF that] by (simp add: dec_def digits64)
    next
      case 3
      with lead(2) show ?thesis
        unfolding len utf8_char_unat[OF that] by (simp add: dec_def digits64)
    next
      case 4
      then show ?thesis
        unfolding len utf8_char_unat[OF that] by (simp add: dec_def digits64)
    qed
  qed
  from eq have "map unat (utf8_char c) @ map unat xs = map unat (utf8_char d) @ map unat ys"
    by (metis map_append)
  then have "dec (map unat (utf8_char c) @ map unat xs) =
      dec (map unat (utf8_char d) @ map unat ys)" by simp
  then have "c = d" by (simp add: dec[OF c] dec[OF d])
  with eq show ?thesis by simp
qed

lemma encode_utf8_inj:
  assumes "\<forall>c \<in> set u. c < 0x110000" "\<forall>c \<in> set v. c < 0x110000"
    and "encode_utf8 u = encode_utf8 v"
  shows "u = v"
  using assms
proof (induction u arbitrary: v)
  case Nil
  then show ?case
    by (cases v) (simp_all add: encode_utf8_def utf8_char_nonempty)
next
  case (Cons c u)
  show ?case
  proof (cases v)
    case Nil
    with Cons.prems show ?thesis by (simp add: encode_utf8_def utf8_char_nonempty)
  next
    case (Cons d v')
    with Cons.prems have "utf8_char c @ encode_utf8 u = utf8_char d @ encode_utf8 v'"
      "c < 0x110000" "d < 0x110000"
      by (simp_all add: encode_utf8_def)
    from utf8_char_prefix_free[OF this(2,3,1)] have "c = d" "encode_utf8 u = encode_utf8 v'"
      by simp_all
    with Cons.IH[of v'] Cons.prems Cons show ?thesis by simp
  qed
qed

lemma hex_digit_inj: "a < 16 \<Longrightarrow> b < 16 \<Longrightarrow> hex_digit a = hex_digit b \<Longrightarrow> a = b"
  by (simp add: hex_digit_def split: if_splits)

lemma hex_byte_inj: "hex_byte a = hex_byte b \<Longrightarrow> a = b"
proof -
  assume "hex_byte a = hex_byte b"
  then have "hex_digit (unat a div 16) = hex_digit (unat b div 16)"
    "hex_digit (unat a mod 16) = hex_digit (unat b mod 16)"
    by (simp_all add: hex_byte_def)
  moreover have "unat a < 256" "unat b < 256"
    using unsigned_less[of a, where 'a = nat] unsigned_less[of b, where 'a = nat] by simp_all
  ultimately have "unat a div 16 = unat b div 16" "unat a mod 16 = unat b mod 16"
    by (auto intro!: hex_digit_inj)
  then have "unat a = unat b"
    by (metis div_mult_mod_eq)
  then show "a = b" by (simp add: word_unat_eq_iff)
qed

lemma hexdigest_inj: "hexdigest a = hexdigest b \<Longrightarrow> a = b"
proof (induction a arbitrary: b)
  case Nil
  then show ?case by (cases b) (simp_all add: hexdigest_def hex_byte_def)
next
  case (Cons x a)
  show ?case
  proof (cases b)
    case Nil
    with Cons.prems show ?thesis by (simp add: hexdigest_def hex_byte_def)
  next
    case (Cons y b')
    with Cons.prems have "hex_byte x @ hexdigest a = hex_byte y @ hexdigest b'"
      by (simp add: hexdigest_def)
    then have "hex_byte x = hex_byte y" "hexdigest a = hexdigest b'"
      by (simp_all add: hex_byte_def)
    with Cons.IH[of b'] hex_byte_inj Cons show ?thesis by blast
  qed
qed

lemma length_hexdigest: "length (hexdigest d) = 2 * length d"
  by (induction d) (simp_all add: hexdigest_def hex_byte_def)

lemma length_md5_digest: "length (md5_digest msg) = 16"
  by (simp add: md5_digest_def le_bytes_def Let_def split: prod.splits)

text \<open>Unrolling a loop over \<open>[i..<n]\<close> with numerals for bounds, one step at a time.\<close>

lemma fold_upt_step:
  "fold f [numeral i..<numeral n] s =
     (if (numeral i :: nat) < numeral n
      then fold f [numeral (i + Num.One)..<numeral n] (f (numeral i) s) else s)"
  by (simp add: upt_rec[of "numeral i"] del: upt_rec_numeral)

lemma fold_upt_0:
  "fold f [0..<numeral n] s = fold f [1..<numeral n] (f 0 s)"
  by (simp add: upt_rec[of 0])

lemma fold_upt_1:
  "fold f [Suc 0..<numeral n] s =
     (if (1 :: nat) < numeral n then fold f [2..<numeral n] (f 1 s) else s)"
  by (simp add: upt_rec[of "Suc 0"] numeral_2_eq_2 del: upt_rec_numeral)

lemma upt_0_numeral: "[0..<numeral n] = 0 # [Suc 0..<numeral n]"
  by (simp add: upt_rec[of 0])

lemma upt_1_numeral:
  "[Suc 0..<numeral n] = (if (1 :: nat) < numeral n then Suc 0 # [2..<numeral n] else [])"
  by (simp add: upt_rec[of "Suc 0"] numeral_2_eq_2 del: upt_rec_numeral)

lemma replicate_numeral_snoc: "replicate (numeral k) x = replicate (pred_numeral k) x @ [x]"
  by (simp add: numeral_eq_Suc replicate_append_same)

text \<open>
  Worked examples, each step by step: the padded message, the sixteen words of each block,
  the state after its 64 rounds, the state after the block, and the digest. The first two
  messages are from the test suite of RFC 1321, the second of them two blocks long.
\<close>

lemma md5_pad_abc:
  "md5_pad [97, 98, 99] = [97, 98, 99, 128, 0, 0, 0, 0, 0, 0, 0, 0, 0, 0, 0, 0, 0, 0, 0, 0, 0,
   0, 0, 0, 0, 0, 0, 0, 0, 0, 0, 0, 0, 0, 0, 0, 0, 0, 0, 0, 0, 0, 0, 0, 0, 0, 0, 0, 0, 0, 0, 0,
   0, 0, 0, 0, 24, 0, 0, 0, 0, 0, 0, 0]"
  by (simp add: md5_pad_def le_bytes_def upt_0_numeral upt_1_numeral replicate_numeral_snoc)

lemma md5_words_abc:
  "map (\<lambda>j. le_word (take 4 (drop (4 * j) [97, 98, 99, 128, 0, 0, 0, 0, 0, 0, 0, 0, 0,
   0, 0, 0, 0, 0, 0, 0, 0, 0, 0, 0, 0, 0, 0, 0, 0, 0, 0, 0, 0, 0, 0, 0, 0, 0, 0, 0, 0, 0, 0, 0,
   0, 0, 0, 0, 0, 0, 0, 0, 0, 0, 0, 0, 24, 0, 0, 0, 0, 0, 0, 0]))) [0..<16] = [2153996897, 0,
   0, 0, 0, 0, 0, 0, 0, 0, 0, 0, 0, 0, 24, 0]"
  by (simp add: le_word_def upt_0_numeral upt_1_numeral)

lemma md5_rounds_abc:
  "fold (md5_round [2153996897, 0, 0, 0, 0, 0, 0, 0, 0, 0, 0, 0, 0, 0, 24, 0]) [0..<64]
   (1732584193, 4023233417, 2562383102, 271733878) = (822795919, 3229755059, 3833903576,
   1649249458)"
  by (simp add: fold_upt_0 fold_upt_1 fold_upt_step md5_round_def md5_s_def md5_K_def
      rotate_left_def del: upt_rec_numeral)

lemma md5_block_abc:
  "md5_block (1732584193, 4023233417, 2562383102, 271733878) [97, 98, 99, 128, 0, 0, 0, 0, 0,
   0, 0, 0, 0, 0, 0, 0, 0, 0, 0, 0, 0, 0, 0, 0, 0, 0, 0, 0, 0, 0, 0, 0, 0, 0, 0, 0, 0, 0, 0, 0,
   0, 0, 0, 0, 0, 0, 0, 0, 0, 0, 0, 0, 0, 0, 0, 0, 24, 0, 0, 0, 0, 0, 0, 0] = (2555380112,
   2958021180, 2101319382, 1920983336)"
  unfolding md5_block_def Let_def md5_words_abc md5_rounds_abc by simp

lemma md5_digest_abc:
  "md5_digest [97, 98, 99] = [144, 1, 80, 152, 60, 210, 79, 176, 214, 150, 63, 125, 40, 225,
   127, 114]"
  by (simp add: md5_digest_def md5_pad_abc md5_block_abc le_bytes_def
      upt_0_numeral upt_1_numeral)

lemma md5_pad_rfc:
  "md5_pad [49, 50, 51, 52, 53, 54, 55, 56, 57, 48, 49, 50, 51, 52, 53, 54, 55, 56, 57, 48,
   49, 50, 51, 52, 53, 54, 55, 56, 57, 48, 49, 50, 51, 52, 53, 54, 55, 56, 57, 48, 49, 50, 51,
   52, 53, 54, 55, 56, 57, 48, 49, 50, 51, 52, 53, 54, 55, 56, 57, 48, 49, 50, 51, 52, 53, 54,
   55, 56, 57, 48, 49, 50, 51, 52, 53, 54, 55, 56, 57, 48] = [49, 50, 51, 52, 53, 54, 55, 56,
   57, 48, 49, 50, 51, 52, 53, 54, 55, 56, 57, 48, 49, 50, 51, 52, 53, 54, 55, 56, 57, 48, 49,
   50, 51, 52, 53, 54, 55, 56, 57, 48, 49, 50, 51, 52, 53, 54, 55, 56, 57, 48, 49, 50, 51, 52,
   53, 54, 55, 56, 57, 48, 49, 50, 51, 52, 53, 54, 55, 56, 57, 48, 49, 50, 51, 52, 53, 54, 55,
   56, 57, 48, 128, 0, 0, 0, 0, 0, 0, 0, 0, 0, 0, 0, 0, 0, 0, 0, 0, 0, 0, 0, 0, 0, 0, 0, 0, 0,
   0, 0, 0, 0, 0, 0, 0, 0, 0, 0, 0, 0, 0, 0, 128, 2, 0, 0, 0, 0, 0, 0]"
  by (simp add: md5_pad_def le_bytes_def upt_0_numeral upt_1_numeral replicate_numeral_snoc)

lemma md5_words_rfc_1:
  "map (\<lambda>j. le_word (take 4 (drop (4 * j) [49, 50, 51, 52, 53, 54, 55, 56, 57, 48, 49,
   50, 51, 52, 53, 54, 55, 56, 57, 48, 49, 50, 51, 52, 53, 54, 55, 56, 57, 48, 49, 50, 51, 52,
   53, 54, 55, 56, 57, 48, 49, 50, 51, 52, 53, 54, 55, 56, 57, 48, 49, 50, 51, 52, 53, 54, 55,
   56, 57, 48, 49, 50, 51, 52]))) [0..<16] = [875770417, 943142453, 842084409, 909456435,
   809056311, 875770417, 943142453, 842084409, 909456435, 809056311, 875770417, 943142453,
   842084409, 909456435, 809056311, 875770417]"
  by (simp add: le_word_def upt_0_numeral upt_1_numeral)

lemma md5_rounds_rfc_1:
  "fold (md5_round [875770417, 943142453, 842084409, 909456435, 809056311, 875770417,
   943142453, 842084409, 909456435, 809056311, 875770417, 943142453, 842084409, 909456435,
   809056311, 875770417]) [0..<64] (1732584193, 4023233417, 2562383102, 271733878) =
   (1632135403, 3033739522, 1362301595, 2694789287)"
  by (simp add: fold_upt_0 fold_upt_1 fold_upt_step md5_round_def md5_s_def md5_K_def
      rotate_left_def del: upt_rec_numeral)

lemma md5_block_rfc_1:
  "md5_block (1732584193, 4023233417, 2562383102, 271733878) [49, 50, 51, 52, 53, 54, 55, 56,
   57, 48, 49, 50, 51, 52, 53, 54, 55, 56, 57, 48, 49, 50, 51, 52, 53, 54, 55, 56, 57, 48, 49,
   50, 51, 52, 53, 54, 55, 56, 57, 48, 49, 50, 51, 52, 53, 54, 55, 56, 57, 48, 49, 50, 51, 52,
   53, 54, 55, 56, 57, 48, 49, 50, 51, 52] = (3364719596, 2762005643, 3924684697, 2966523165)"
  unfolding md5_block_def Let_def md5_words_rfc_1 md5_rounds_rfc_1 by simp

lemma md5_words_rfc_2:
  "map (\<lambda>j. le_word (take 4 (drop (4 * j) [53, 54, 55, 56, 57, 48, 49, 50, 51, 52, 53,
   54, 55, 56, 57, 48, 128, 0, 0, 0, 0, 0, 0, 0, 0, 0, 0, 0, 0, 0, 0, 0, 0, 0, 0, 0, 0, 0, 0,
   0, 0, 0, 0, 0, 0, 0, 0, 0, 0, 0, 0, 0, 0, 0, 0, 0, 128, 2, 0, 0, 0, 0, 0, 0]))) [0..<16] =
   [943142453, 842084409, 909456435, 809056311, 128, 0, 0, 0, 0, 0, 0, 0, 0, 0, 640, 0]"
  by (simp add: le_word_def upt_0_numeral upt_1_numeral)

lemma md5_rounds_rfc_2:
  "fold (md5_round [943142453, 842084409, 909456435, 809056311, 128, 0, 0, 0, 0, 0, 0, 0, 0,
   0, 640, 0]) [0..<64] (3364719596, 2762005643, 3924684697, 2966523165) = (3664208235,
   2972255904, 1156340243, 3387193860)"
  by (simp add: fold_upt_0 fold_upt_1 fold_upt_step md5_round_def md5_s_def md5_K_def
      rotate_left_def del: upt_rec_numeral)

lemma md5_block_rfc_2:
  "md5_block (3364719596, 2762005643, 3924684697, 2966523165) [53, 54, 55, 56, 57, 48, 49, 50,
   51, 52, 53, 54, 55, 56, 57, 48, 128, 0, 0, 0, 0, 0, 0, 0, 0, 0, 0, 0, 0, 0, 0, 0, 0, 0, 0,
   0, 0, 0, 0, 0, 0, 0, 0, 0, 0, 0, 0, 0, 0, 0, 0, 0, 0, 0, 0, 0, 128, 2, 0, 0, 0, 0, 0, 0] =
   (2733960535, 1439294251, 786057644, 2058749729)"
  unfolding md5_block_def Let_def md5_words_rfc_2 md5_rounds_rfc_2 by simp

lemma md5_digest_rfc:
  "md5_digest [49, 50, 51, 52, 53, 54, 55, 56, 57, 48, 49, 50, 51, 52, 53, 54, 55, 56, 57, 48,
   49, 50, 51, 52, 53, 54, 55, 56, 57, 48, 49, 50, 51, 52, 53, 54, 55, 56, 57, 48, 49, 50, 51,
   52, 53, 54, 55, 56, 57, 48, 49, 50, 51, 52, 53, 54, 55, 56, 57, 48, 49, 50, 51, 52, 53, 54,
   55, 56, 57, 48, 49, 50, 51, 52, 53, 54, 55, 56, 57, 48] = [87, 237, 244, 162, 43, 227, 201,
   85, 172, 73, 218, 46, 33, 7, 182, 122]"
  by (simp add: md5_digest_def md5_pad_rfc md5_block_rfc_1 md5_block_rfc_2 le_bytes_def
      upt_0_numeral upt_1_numeral)

lemma md5_pad_page1:
  "md5_pad [104, 116, 116, 112, 58, 47, 47, 97, 47, 49] = [104, 116, 116, 112, 58, 47, 47, 97,
   47, 49, 128, 0, 0, 0, 0, 0, 0, 0, 0, 0, 0, 0, 0, 0, 0, 0, 0, 0, 0, 0, 0, 0, 0, 0, 0, 0, 0,
   0, 0, 0, 0, 0, 0, 0, 0, 0, 0, 0, 0, 0, 0, 0, 0, 0, 0, 0, 80, 0, 0, 0, 0, 0, 0, 0]"
  by (simp add: md5_pad_def le_bytes_def upt_0_numeral upt_1_numeral replicate_numeral_snoc)

lemma md5_words_page1:
  "map (\<lambda>j. le_word (take 4 (drop (4 * j) [104, 116, 116, 112, 58, 47, 47, 97, 47, 49,
   128, 0, 0, 0, 0, 0, 0, 0, 0, 0, 0, 0, 0, 0, 0, 0, 0, 0, 0, 0, 0, 0, 0, 0, 0, 0, 0, 0, 0, 0,
   0, 0, 0, 0, 0, 0, 0, 0, 0, 0, 0, 0, 0, 0, 0, 0, 80, 0, 0, 0, 0, 0, 0, 0]))) [0..<16] =
   [1886680168, 1630482234, 8401199, 0, 0, 0, 0, 0, 0, 0, 0, 0, 0, 0, 80, 0]"
  by (simp add: le_word_def upt_0_numeral upt_1_numeral)

lemma md5_rounds_page1:
  "fold (md5_round [1886680168, 1630482234, 8401199, 0, 0, 0, 0, 0, 0, 0, 0, 0, 0, 0, 80, 0])
   [0..<64] (1732584193, 4023233417, 2562383102, 271733878) = (2149816056, 2620081746,
   14021282, 3331156362)"
  by (simp add: fold_upt_0 fold_upt_1 fold_upt_step md5_round_def md5_s_def md5_K_def
      rotate_left_def del: upt_rec_numeral)

lemma md5_block_page1:
  "md5_block (1732584193, 4023233417, 2562383102, 271733878) [104, 116, 116, 112, 58, 47, 47,
   97, 47, 49, 128, 0, 0, 0, 0, 0, 0, 0, 0, 0, 0, 0, 0, 0, 0, 0, 0, 0, 0, 0, 0, 0, 0, 0, 0, 0,
   0, 0, 0, 0, 0, 0, 0, 0, 0, 0, 0, 0, 0, 0, 0, 0, 0, 0, 0, 0, 80, 0, 0, 0, 0, 0, 0, 0] =
   (3882400249, 2348347867, 2576404384, 3602890240)"
  unfolding md5_block_def Let_def md5_words_page1 md5_rounds_page1 by simp

lemma md5_digest_page1:
  "md5_digest [104, 116, 116, 112, 58, 47, 47, 97, 47, 49] = [249, 185, 104, 231, 219, 241,
   248, 139, 160, 207, 144, 153, 0, 190, 191, 214]"
  by (simp add: md5_digest_def md5_pad_page1 md5_block_page1 le_bytes_def
      upt_0_numeral upt_1_numeral)

lemma md5_pad_page2:
  "md5_pad [104, 116, 116, 112, 58, 47, 47, 97, 47, 50] = [104, 116, 116, 112, 58, 47, 47, 97,
   47, 50, 128, 0, 0, 0, 0, 0, 0, 0, 0, 0, 0, 0, 0, 0, 0, 0, 0, 0, 0, 0, 0, 0, 0, 0, 0, 0, 0,
   0, 0, 0, 0, 0, 0, 0, 0, 0, 0, 0, 0, 0, 0, 0, 0, 0, 0, 0, 80, 0, 0, 0, 0, 0, 0, 0]"
  by (simp add: md5_pad_def le_bytes_def upt_0_numeral upt_1_numeral replicate_numeral_snoc)

lemma md5_words_page2:
  "map (\<lambda>j. le_word (take 4 (drop (4 * j) [104, 116, 116, 112, 58, 47, 47, 97, 47, 50,
   128, 0, 0, 0, 0, 0, 0, 0, 0, 0, 0, 0, 0, 0, 0, 0, 0, 0, 0, 0, 0, 0, 0, 0, 0, 0, 0, 0, 0, 0,
   0, 0, 0, 0, 0, 0, 0, 0, 0, 0, 0, 0, 0, 0, 0, 0, 80, 0, 0, 0, 0, 0, 0, 0]))) [0..<16] =
   [1886680168, 1630482234, 8401455, 0, 0, 0, 0, 0, 0, 0, 0, 0, 0, 0, 80, 0]"
  by (simp add: le_word_def upt_0_numeral upt_1_numeral)

lemma md5_rounds_page2:
  "fold (md5_round [1886680168, 1630482234, 8401455, 0, 0, 0, 0, 0, 0, 0, 0, 0, 0, 0, 80, 0])
   [0..<64] (1732584193, 4023233417, 2562383102, 271733878) = (2704054042, 783347552,
   3627666939, 3327100458)"
  by (simp add: fold_upt_0 fold_upt_1 fold_upt_step md5_round_def md5_s_def md5_K_def
      rotate_left_def del: upt_rec_numeral)

lemma md5_block_page2:
  "md5_block (1732584193, 4023233417, 2562383102, 271733878) [104, 116, 116, 112, 58, 47, 47,
   97, 47, 50, 128, 0, 0, 0, 0, 0, 0, 0, 0, 0, 0, 0, 0, 0, 0, 0, 0, 0, 0, 0, 0, 0, 0, 0, 0, 0,
   0, 0, 0, 0, 0, 0, 0, 0, 0, 0, 0, 0, 0, 0, 0, 0, 0, 0, 0, 0, 80, 0, 0, 0, 0, 0, 0, 0] =
   (141670939, 511613673, 1895082745, 3598834336)"
  unfolding md5_block_def Let_def md5_words_page2 md5_rounds_page2 by simp

lemma md5_digest_page2:
  "md5_digest [104, 116, 116, 112, 58, 47, 47, 97, 47, 50] = [27, 186, 113, 8, 233, 154, 126,
   30, 249, 170, 244, 112, 160, 218, 129, 214]"
  by (simp add: md5_digest_def md5_pad_page2 md5_block_page2 le_bytes_def
      upt_0_numeral upt_1_numeral)

lemma md5_pad_unicode:
  "md5_pad [104, 116, 116, 112, 58, 47, 47, 97, 47, 195, 169, 226, 130, 172, 240, 159, 152,
   128] = [104, 116, 116, 112, 58, 47, 47, 97, 47, 195, 169, 226, 130, 172, 240, 159, 152, 128,
   128, 0, 0, 0, 0, 0, 0, 0, 0, 0, 0, 0, 0, 0, 0, 0, 0, 0, 0, 0, 0, 0, 0, 0, 0, 0, 0, 0, 0, 0,
   0, 0, 0, 0, 0, 0, 0, 0, 144, 0, 0, 0, 0, 0, 0, 0]"
  by (simp add: md5_pad_def le_bytes_def upt_0_numeral upt_1_numeral replicate_numeral_snoc)

lemma md5_words_unicode:
  "map (\<lambda>j. le_word (take 4 (drop (4 * j) [104, 116, 116, 112, 58, 47, 47, 97, 47,
   195, 169, 226, 130, 172, 240, 159, 152, 128, 128, 0, 0, 0, 0, 0, 0, 0, 0, 0, 0, 0, 0, 0, 0,
   0, 0, 0, 0, 0, 0, 0, 0, 0, 0, 0, 0, 0, 0, 0, 0, 0, 0, 0, 0, 0, 0, 0, 144, 0, 0, 0, 0, 0, 0,
   0]))) [0..<16] = [1886680168, 1630482234, 3802776367, 2683350146, 8421528, 0, 0, 0, 0, 0, 0,
   0, 0, 0, 144, 0]"
  by (simp add: le_word_def upt_0_numeral upt_1_numeral)

lemma md5_rounds_unicode:
  "fold (md5_round [1886680168, 1630482234, 3802776367, 2683350146, 8421528, 0, 0, 0, 0, 0, 0,
   0, 0, 0, 144, 0]) [0..<64] (1732584193, 4023233417, 2562383102, 271733878) = (3993521650,
   3207918593, 2102347011, 2547241373)"
  by (simp add: fold_upt_0 fold_upt_1 fold_upt_step md5_round_def md5_s_def md5_K_def
      rotate_left_def del: upt_rec_numeral)

lemma md5_block_unicode:
  "md5_block (1732584193, 4023233417, 2562383102, 271733878) [104, 116, 116, 112, 58, 47, 47,
   97, 47, 195, 169, 226, 130, 172, 240, 159, 152, 128, 128, 0, 0, 0, 0, 0, 0, 0, 0, 0, 0, 0,
   0, 0, 0, 0, 0, 0, 0, 0, 0, 0, 0, 0, 0, 0, 0, 0, 0, 0, 0, 0, 0, 0, 0, 0, 0, 0, 144, 0, 0, 0,
   0, 0, 0, 0] = (1431138547, 2936184714, 369762817, 2818975251)"
  unfolding md5_block_def Let_def md5_words_unicode md5_rounds_unicode by simp

lemma md5_digest_unicode:
  "md5_digest [104, 116, 116, 112, 58, 47, 47, 97, 47, 195, 169, 226, 130, 172, 240, 159, 152,
   128] = [243, 112, 77, 85, 138, 159, 2, 175, 1, 34, 10, 22, 19, 38, 6, 168]"
  by (simp add: md5_digest_def md5_pad_unicode md5_block_unicode le_bytes_def
      upt_0_numeral upt_1_numeral)

lemma md5_hex_abc:
  "hexdigest (md5_digest (encode_utf8 (lit ''abc''))) = lit ''900150983cd24fb0d6963f7d28e17f72''"
proof -
  have "encode_utf8 (lit ''abc'') = [97, 98, 99]"
    by (simp add: encode_utf8_def utf8_char_def lit_def)
  then show ?thesis
    unfolding md5_digest_abc
    by (simp add: md5_digest_abc hexdigest_def hex_byte_def hex_digit_def lit_def)
qed

lemma md5_hex_rfc:
  "hexdigest (md5_digest (encode_utf8
     (lit ''12345678901234567890123456789012345678901234567890123456789012345678901234567890''))) =
   lit ''57edf4a22be3c955ac49da2e2107b67a''"
proof -
  have "encode_utf8
      (lit ''12345678901234567890123456789012345678901234567890123456789012345678901234567890'') =
      [49, 50, 51, 52, 53, 54, 55, 56, 57, 48, 49, 50, 51, 52, 53, 54, 55, 56, 57, 48,
       49, 50, 51, 52, 53, 54, 55, 56, 57, 48, 49, 50, 51, 52, 53, 54, 55, 56, 57, 48,
       49, 50, 51, 52, 53, 54, 55, 56, 57, 48, 49, 50, 51, 52, 53, 54, 55, 56, 57, 48,
       49, 50, 51, 52, 53, 54, 55, 56, 57, 48, 49, 50, 51, 52, 53, 54, 55, 56, 57, 48]"
    by (simp add: encode_utf8_def utf8_char_def lit_def)
  then show ?thesis
    by (simp add: md5_digest_rfc hexdigest_def hex_byte_def hex_digit_def lit_def)
qed

text \<open>
  The names of three pages, as \<open>hashlib\<close> gives them. The URL of the third has a code point
  for each of the longer forms of UTF-8: \<open>U+00E9\<close>, \<open>U+20AC\<close> and \<open>U+1F600\<close>.
\<close>

lemma encode_utf8_page1:
  "encode_utf8 (lit ''http://a/1'') = [104, 116, 116, 112, 58, 47, 47, 97, 47, 49]"
  by (simp add: encode_utf8_def utf8_char_def lit_def)

lemma encode_utf8_page2:
  "encode_utf8 (lit ''http://a/2'') = [104, 116, 116, 112, 58, 47, 47, 97, 47, 50]"
  by (simp add: encode_utf8_def utf8_char_def lit_def)

lemma encode_utf8_unicode:
  "encode_utf8 (lit ''http://a/'' @ [0xE9, 0x20AC, 0x1F600]) =
     [104, 116, 116, 112, 58, 47, 47, 97, 47, 195, 169, 226, 130, 172, 240, 159, 152,
      128]"
  by (simp add: encode_utf8_def utf8_char_def lit_def)

lemma url_to_filename_page1:
  "url_to_filename (lit ''http://a/1'') = lit ''f9b968e7dbf1f88ba0cf909900bebfd6.html''"
  unfolding url_to_filename_def encode_utf8_page1 md5_digest_page1
  by (simp add: hexdigest_def hex_byte_def hex_digit_def lit_def)

lemma url_to_filename_page2:
  "url_to_filename (lit ''http://a/2'') = lit ''1bba7108e99a7e1ef9aaf470a0da81d6.html''"
  unfolding url_to_filename_def encode_utf8_page2 md5_digest_page2
  by (simp add: hexdigest_def hex_byte_def hex_digit_def lit_def)

lemma url_to_filename_unicode:
  "url_to_filename (lit ''http://a/'' @ [0xE9, 0x20AC, 0x1F600]) =
     lit ''f3704d558a9f02af01220a16132606a8.html''"
  unfolding url_to_filename_def encode_utf8_unicode md5_digest_unicode
  by (simp add: hexdigest_def hex_byte_def hex_digit_def lit_def)

lemma hexdigest_digits:
  "list_all (\<lambda>c. (48 \<le> c \<and> c \<le> 57) \<or> (97 \<le> c \<and> c \<le> 102)) (hexdigest d)"
proof -
  have "list_all (\<lambda>c. (48 \<le> c \<and> c \<le> 57) \<or> (97 \<le> c \<and> c \<le> 102)) (hex_byte b)"
    for b :: byte
  proof -
    have "unat b div 16 < 16" "unat b mod 16 < 16"
      using unsigned_less[of b, where 'a = nat] by (simp_all add: less_mult_imp_div_less)
    then show ?thesis
      by (auto simp: hex_byte_def hex_digit_def)
  qed
  then show ?thesis
    by (induction d) (simp_all add: hexdigest_def)
qed

lemma scalar_values_bound: "scalar_values u \<Longrightarrow> \<forall>c \<in> set u. c < 0x110000"
  by (auto simp: scalar_values_def list_all_iff)

text \<open>
  Claim C8. \<open>url_to_filename\<close> is a function of the URL alone: it reads neither the world
  nor the environment, so two calls on the same URL give the same name. For URLs that
  \<open>encode\<close> accepts, the name has 37 characters: 32 digits from \<open>0\<close> to \<open>9\<close> and \<open>a\<close> to \<open>f\<close>,
  then the suffix \<open>.html\<close>. Two URLs get the same name exactly when the UTF-8 encodings of
  the two have the same MD5 digest, and two distinct URLs have distinct encodings; so two
  distinct URLs share a name only when MD5 collides on them. The digest is the MD5 of
  RFC 1321, as its test suite shows on a message of one block and on one of two; and the
  names of three pages, two of them distinct URLs with distinct names and the third not
  in ASCII, are those that \<open>hashlib.md5(url.encode('utf-8')).hexdigest() + '.html'\<close> gives.
\<close>

theorem url_to_filename_names:
  assumes "scalar_values u" and "scalar_values v"
  shows "length (url_to_filename u) = 37 \<and>
    list_all (\<lambda>c. (48 \<le> c \<and> c \<le> 57) \<or> (97 \<le> c \<and> c \<le> 102))
      (take 32 (url_to_filename u)) \<and>
    drop 32 (url_to_filename u) = lit ''.html'' \<and>
    (url_to_filename u = url_to_filename v \<longleftrightarrow>
       md5_digest (encode_utf8 u) = md5_digest (encode_utf8 v)) \<and>
    (u \<noteq> v \<longrightarrow> encode_utf8 u \<noteq> encode_utf8 v) \<and>
    hexdigest (md5_digest (encode_utf8 (lit ''abc''))) =
      lit ''900150983cd24fb0d6963f7d28e17f72'' \<and>
    hexdigest (md5_digest (encode_utf8
      (lit ''12345678901234567890123456789012345678901234567890123456789012345678901234567890''))) =
      lit ''57edf4a22be3c955ac49da2e2107b67a'' \<and>
    url_to_filename (lit ''http://a/1'') = lit ''f9b968e7dbf1f88ba0cf909900bebfd6.html'' \<and>
    url_to_filename (lit ''http://a/2'') = lit ''1bba7108e99a7e1ef9aaf470a0da81d6.html'' \<and>
    url_to_filename (lit ''http://a/1'') \<noteq> url_to_filename (lit ''http://a/2'') \<and>
    url_to_filename (lit ''http://a/'' @ [0xE9, 0x20AC, 0x1F600]) =
      lit ''f3704d558a9f02af01220a16132606a8.html''"
proof -
  have len: "length (hexdigest (md5_digest (encode_utf8 u))) = 32"
    by (simp add: length_hexdigest length_md5_digest)
  have "url_to_filename u = url_to_filename v \<longleftrightarrow>
      md5_digest (encode_utf8 u) = md5_digest (encode_utf8 v)"
    using hexdigest_inj by (auto simp: url_to_filename_def)
  moreover have "u \<noteq> v \<longrightarrow> encode_utf8 u \<noteq> encode_utf8 v"
    using encode_utf8_inj[of u v] scalar_values_bound[OF assms(1)]
      scalar_values_bound[OF assms(2)] by blast
  moreover have "url_to_filename (lit ''http://a/1'') \<noteq> url_to_filename (lit ''http://a/2'')"
    unfolding url_to_filename_page1 url_to_filename_page2 by (simp add: lit_def)
  moreover have "list_all (\<lambda>c. (48 \<le> c \<and> c \<le> 57) \<or> (97 \<le> c \<and> c \<le> 102))
      (take 32 (url_to_filename u))"
    using len hexdigest_digits[of "md5_digest (encode_utf8 u)"]
    by (simp add: url_to_filename_def)
  moreover have "length (url_to_filename u) = 37" "drop 32 (url_to_filename u) = lit ''.html''"
    using len by (simp_all add: url_to_filename_def lit_def)
  ultimately show ?thesis
    using md5_hex_abc md5_hex_rfc url_to_filename_page1 url_to_filename_page2
      url_to_filename_unicode
    by blast
qed

text \<open>Two pages: their URLs are distinct, so are their encodings, their digests and their
  names.\<close>

theorem url_to_filename_names_witness:
  "scalar_values (lit ''http://a/1'') \<and>
   scalar_values (lit ''http://a/2'') \<and>
   lit ''http://a/1'' \<noteq> lit ''http://a/2'' \<and>
   encode_utf8 (lit ''http://a/1'') \<noteq> encode_utf8 (lit ''http://a/2'') \<and>
   md5_digest (encode_utf8 (lit ''http://a/1'')) \<noteq> md5_digest (encode_utf8 (lit ''http://a/2'')) \<and>
   url_to_filename (lit ''http://a/1'') = lit ''f9b968e7dbf1f88ba0cf909900bebfd6.html'' \<and>
   url_to_filename (lit ''http://a/2'') = lit ''1bba7108e99a7e1ef9aaf470a0da81d6.html'' \<and>
   length (url_to_filename (lit ''http://a/1'')) = 37 \<and>
   drop 32 (url_to_filename (lit ''http://a/1'')) = lit ''.html''"
proof -
  have ok: "scalar_values (lit ''http://a/1'')" "scalar_values (lit ''http://a/2'')"
    by (simp_all add: scalar_values_def lit_def)
  have ne: "lit ''http://a/1'' \<noteq> lit ''http://a/2''"
    by (simp add: lit_def)
  from url_to_filename_names[OF ok] ne have
    "encode_utf8 (lit ''http://a/1'') \<noteq> encode_utf8 (lit ''http://a/2'')"
    "md5_digest (encode_utf8 (lit ''http://a/1'')) \<noteq>
       md5_digest (encode_utf8 (lit ''http://a/2''))"
    "url_to_filename (lit ''http://a/1'') = lit ''f9b968e7dbf1f88ba0cf909900bebfd6.html''"
    "url_to_filename (lit ''http://a/2'') = lit ''1bba7108e99a7e1ef9aaf470a0da81d6.html''"
    "length (url_to_filename (lit ''http://a/1'')) = 37"
    "drop 32 (url_to_filename (lit ''http://a/1'')) = lit ''.html''"
    by blast+
  with ok ne show ?thesis by blast
qed

section \<open>One attempt and the retry loop\<close>

lemma store_cases:
  "store env a url content m w = (r, m', w') \<Longrightarrow>
     requests w' = requests w \<and> tick w' = Suc (tick w) \<and> log w' = log w \<and>
     ((r = Raise OSError \<and> m' = m \<and> files w' = files w
         \<and> os_error env (Open_write (path_join (output_dir a) (url_to_filename url))) (tick w)) \<or>
      (r = Return Saved \<and> m' = AList.update url (url_to_filename url) m
         \<and> files w' =
             (files w)(path_join (output_dir a) (url_to_filename url) \<mapsto> Artifact content)
         \<and> \<not> os_error env (Open_write (path_join (output_dir a) (url_to_filename url)))
               (tick w)))"
  by (auto simp: store_def write_file_def Let_def split: if_splits)

lemma attempt_requests:
  "attempt env a url m w = (r, m', w') \<Longrightarrow> requests w' = requests w @ [url]"
  by (auto simp: attempt_def fetch_url_def logging_def split: sum.splits if_splits
      dest!: store_cases)

lemma attempt_not_skipped:
  "attempt env a url m w = (r, m', w') \<Longrightarrow> r \<noteq> Return Skipped"
  by (auto simp: attempt_def fetch_url_def logging_def split: sum.splits if_splits
      dest!: store_cases)

lemma attempt_url_map:
  "attempt env a url m w = (r, m', w') \<Longrightarrow>
     m' = (if r = Return Saved then AList.update url (url_to_filename url) m else m)"
  by (auto simp: attempt_def fetch_url_def logging_def split: sum.splits if_splits
      dest!: store_cases)

lemma attempt_tick:
  "attempt env a url m w = (r, m', w') \<Longrightarrow> tick w < tick w'"
  by (auto simp: attempt_def fetch_url_def logging_def split: sum.splits if_splits
      dest!: store_cases)

lemma attempt_fetch_fails:
  "http_get env url (tick w) = Inl e \<Longrightarrow>
   attempt env a url m w =
     (Raise e, m, w\<lparr>tick := Suc (tick w), requests := requests w @ [url]\<rparr>)"
  by (simp add: attempt_def fetch_url_def)

lemma retry_loop_step_raise:
  "0 < n \<Longrightarrow> attempt env a url m w = (Raise e, m', w') \<Longrightarrow>
   retry_loop env a url n m w =
     retry_loop env a url (n - 1) m' (logging (Error_fetching url e (n - 1)) w')"
  by (subst retry_loop.simps) simp

lemma retry_loop_step_return:
  "0 < n \<Longrightarrow> attempt env a url m w = (Return st, m', w') \<Longrightarrow>
   retry_loop env a url n m w = (st, m', w')"
  by (subst retry_loop.simps) simp

lemma retry_loop_exhausted:
  "n \<le> 0 \<Longrightarrow> retry_loop env a url n m w = (Error, m, w)"
  by (subst retry_loop.simps) simp

text \<open>After \<open>j\<close> requests that raised, the loop stands at \<open>n - j\<close> with \<open>j\<close> more requests
  and \<open>j\<close> more warnings, and nothing else has changed.\<close>

lemma retry_loop_fetch_failures:
  "int j \<le> n \<Longrightarrow> \<forall>i<j. isl (http_get env url (tick w + i)) \<Longrightarrow>
   \<exists>w1. retry_loop env a url n m w = retry_loop env a url (n - int j) m w1 \<and>
        tick w1 = tick w + j \<and> files w1 = files w \<and>
        requests w1 = requests w @ replicate j url \<and>
        length (log w1) = length (log w) + j"
proof (induction j arbitrary: n w)
  case 0
  then show ?case by auto
next
  case (Suc j)
  from Suc.prems(2) have "isl (http_get env url (tick w + 0))" by blast
  then obtain e where e: "http_get env url (tick w) = Inl e"
    by (cases "http_get env url (tick w)") auto
  let ?w = "logging (Error_fetching url e (n - 1))
              (w\<lparr>tick := Suc (tick w), requests := requests w @ [url]\<rparr>)"
  from Suc.prems(1) have pos: "0 < n" by simp
  have step: "retry_loop env a url n m w = retry_loop env a url (n - 1) m ?w"
    by (rule retry_loop_step_raise[OF pos attempt_fetch_fails[OF e]])
  have "\<forall>i<j. isl (http_get env url (tick ?w + i))"
    using Suc.prems(2) by (auto simp: logging_def)
  moreover have "int j \<le> n - 1" using Suc.prems(1) by simp
  ultimately obtain w1 where
    "retry_loop env a url (n - 1) m ?w = retry_loop env a url (n - 1 - int j) m w1"
    "tick w1 = tick ?w + j" "files w1 = files ?w"
    "requests w1 = requests ?w @ replicate j url"
    "length (log w1) = length (log ?w) + j"
    using Suc.IH[of "n - 1" ?w] by blast
  with step show ?case
    by (intro exI[of _ w1]) (simp add: logging_def replicate_app_Cons_same algebra_simps)
qed

lemma retry_loop_not_skipped:
  "retry_loop env a url n m w = (st, m', w') \<Longrightarrow> st \<noteq> Skipped"
proof (induction env a url n m w rule: retry_loop.induct)
  case (1 env a url attempts url_map w)
  show ?case
  proof (cases "attempts > 0")
    case False
    with "1.prems" show ?thesis by (simp add: retry_loop_exhausted)
  next
    case True
    obtain r m1 w1 where att: "attempt env a url url_map w = (r, m1, w1)"
      by (cases "attempt env a url url_map w") auto
    show ?thesis
    proof (cases r)
      case (Return s)
      with True att "1.prems" attempt_not_skipped[OF att] show ?thesis
        by (simp add: retry_loop_step_return)
    next
      case (Raise e)
      with True att "1.prems" "1.IH"[OF True att[symmetric]] show ?thesis
        by (simp add: retry_loop_step_raise)
    qed
  qed
qed

lemma retry_loop_requests:
  "retry_loop env a url n m w = (st, m', w') \<Longrightarrow>
     \<exists>k. requests w' = requests w @ replicate k url \<and> int k \<le> max n 0 \<and> (0 < n \<longrightarrow> 0 < k)"
proof (induction env a url n m w rule: retry_loop.induct)
  case (1 env a url attempts url_map w)
  show ?case
  proof (cases "attempts > 0")
    case False
    with "1.prems" show ?thesis by (simp add: retry_loop_exhausted)
  next
    case True
    obtain r m1 w1 where att: "attempt env a url url_map w = (r, m1, w1)"
      by (cases "attempt env a url url_map w") auto
    note rq = attempt_requests[OF att]
    show ?thesis
    proof (cases r)
      case (Return s)
      with True att "1.prems" have "w' = w1"
        by (simp add: retry_loop_step_return)
      with rq True show ?thesis by (intro exI[of _ 1]) auto
    next
      case (Raise e)
      with True att "1.prems" have
        "retry_loop env a url (attempts - 1) m1
           (logging (Error_fetching url e (attempts - 1)) w1) = (st, m', w')"
        by (simp add: retry_loop_step_raise)
      from "1.IH"[OF True att[symmetric] _ _ this] Raise
      obtain k where
        "requests w' =
           requests (logging (Error_fetching url e (attempts - 1)) w1) @ replicate k url"
        "int k \<le> max (attempts - 1) 0" by auto
      with rq True show ?thesis
        by (intro exI[of _ "Suc k"]) (auto simp: logging_def replicate_append_same)
    qed
  qed
qed

lemma retry_loop_url_map:
  "retry_loop env a url n m w = (st, m', w') \<Longrightarrow>
     m' = (if st = Saved then AList.update url (url_to_filename url) m else m)"
proof (induction env a url n m w rule: retry_loop.induct)
  case (1 env a url attempts url_map w)
  show ?case
  proof (cases "attempts > 0")
    case False
    with "1.prems" show ?thesis by (simp add: retry_loop_exhausted)
  next
    case True
    obtain r m1 w1 where att: "attempt env a url url_map w = (r, m1, w1)"
      by (cases "attempt env a url url_map w") auto
    note um = attempt_url_map[OF att]
    show ?thesis
    proof (cases r)
      case (Return s)
      with True att "1.prems" um show ?thesis
        by (auto simp: retry_loop_step_return split: if_splits)
    next
      case (Raise e)
      with True att "1.prems" "1.IH"[OF True att[symmetric]] um show ?thesis
        by (simp add: retry_loop_step_raise)
    qed
  qed
qed

lemma process_entry_url_map:
  assumes "process_entry env url lastmod a m w = ((u, st), m', w')"
  shows "u = url \<and> m' = (if st = Saved then AList.update url (url_to_filename url) m else m)"
proof (cases "skip_check env a lastmod")
  case True
  with assms show ?thesis by (simp add: process_entry_def)
next
  case False
  with assms have "retry_loop env a url (retries a) m w = (st, m', w')" "u = url"
    by (auto simp: process_entry_def split: prod.splits)
  with retry_loop_url_map show ?thesis by blast
qed

lemma run_entries_rows:
  "run_entries env a es m w = (rs, m', w') \<Longrightarrow> m' = rows_of rs m \<and> map fst rs = map fst es"
proof (induction es arbitrary: m w rs m' w')
  case Nil
  then show ?case by (simp add: rows_of_def)
next
  case (Cons x es)
  obtain url lm where x: "x = (url, lm)" by (cases x)
  obtain u st m1 w1 where pe: "process_entry env url lm a m w = ((u, st), m1, w1)"
    by (cases "process_entry env url lm a m w") auto
  obtain rs2 m2 w2 where re:
    "run_entries env a es m1 (logging (Outcome st u) w1) = (rs2, m2, w2)"
    by (cases "run_entries env a es m1 (logging (Outcome st u) w1)") auto
  from Cons.prems x pe re have eq: "rs = (u, st) # rs2" "m' = m2" by simp_all
  from Cons.IH[OF re] process_entry_url_map[OF pe] eq x show ?case
    by (simp add: rows_of_def)
qed

lemma attempt_summary_fails:
  assumes "http_get env url (tick w) = Inr content" "readability a" "have_readability env"
    and "summary env content = Inl e"
    and "\<not> os_error env (Open_write (path_join (output_dir a) (url_to_filename url)))
           (Suc (tick w))"
  shows "\<exists>w'. attempt env a url m w =
            (Return Saved, AList.update url (url_to_filename url) m, w') \<and>
          files w' =
            (files w)(path_join (output_dir a) (url_to_filename url) \<mapsto> Artifact content) \<and>
          requests w' = requests w @ [url]"
  using assms
  by (simp add: attempt_def fetch_url_def store_def write_file_def logging_def Let_def)

lemma attempt_readability_missing:
  assumes "http_get env url (tick w) = Inr content" "readability a" "\<not> have_readability env"
  shows "attempt env a url m w =
           (Return Error, m,
            logging Readability_not_installed
              (w\<lparr>tick := Suc (tick w), requests := requests w @ [url]\<rparr>))"
  using assms by (simp add: attempt_def fetch_url_def)

lemma attempt_write_fails:
  assumes "\<not> isl (http_get env url (tick w))" "readability a \<longrightarrow> have_readability env"
    and "os_error env (Open_write (path_join (output_dir a) (url_to_filename url)))
           (Suc (tick w))"
  shows "\<exists>w'. attempt env a url m w = (Raise OSError, m, w') \<and> tick w' = tick w + 2 \<and>
          files w' = files w \<and> requests w' = requests w @ [url]"
proof -
  from assms(1) obtain c where c: "http_get env url (tick w) = Inr c"
    by (cases "http_get env url (tick w)") auto
  with assms(2,3) show ?thesis
    by (cases "summary env c")
      (simp_all add: attempt_def fetch_url_def store_def write_file_def logging_def Let_def)
qed

lemma retry_loop_write_failures:
  "int j \<le> n \<Longrightarrow> readability a \<longrightarrow> have_readability env \<Longrightarrow>
   \<forall>i<j. \<not> isl (http_get env url (tick w + 2 * i)) \<and>
         os_error env (Open_write (path_join (output_dir a) (url_to_filename url)))
           (Suc (tick w + 2 * i)) \<Longrightarrow>
   \<exists>w1. retry_loop env a url n m w = retry_loop env a url (n - int j) m w1 \<and>
        tick w1 = tick w + 2 * j \<and> files w1 = files w \<and>
        requests w1 = requests w @ replicate j url"
proof (induction j arbitrary: n w)
  case 0
  then show ?case by auto
next
  case (Suc j)
  from Suc.prems(3) have
    "\<not> isl (http_get env url (tick w + 2 * 0)) \<and>
     os_error env (Open_write (path_join (output_dir a) (url_to_filename url)))
       (Suc (tick w + 2 * 0))" by blast
  then have "\<not> isl (http_get env url (tick w))"
    "os_error env (Open_write (path_join (output_dir a) (url_to_filename url))) (Suc (tick w))"
    by simp_all
  from attempt_write_fails[OF this(1) Suc.prems(2) this(2), of m]
  obtain w' where att: "attempt env a url m w = (Raise OSError, m, w')"
    and w': "tick w' = tick w + 2" "files w' = files w" "requests w' = requests w @ [url]"
    by blast
  let ?w = "logging (Error_fetching url OSError (n - 1)) w'"
  from Suc.prems(1) have pos: "0 < n" by simp
  have step: "retry_loop env a url n m w = retry_loop env a url (n - 1) m ?w"
    by (rule retry_loop_step_raise[OF pos att])
  have "\<forall>i<j. \<not> isl (http_get env url (tick ?w + 2 * i)) \<and>
         os_error env (Open_write (path_join (output_dir a) (url_to_filename url)))
           (Suc (tick ?w + 2 * i))"
  proof (intro allI impI)
    fix i assume "i < j"
    then have "Suc i < Suc j" by simp
    with Suc.prems(3) have
      "\<not> isl (http_get env url (tick w + 2 * Suc i)) \<and>
       os_error env (Open_write (path_join (output_dir a) (url_to_filename url)))
         (Suc (tick w + 2 * Suc i))" by blast
    then show "\<not> isl (http_get env url (tick ?w + 2 * i)) \<and>
         os_error env (Open_write (path_join (output_dir a) (url_to_filename url)))
           (Suc (tick ?w + 2 * i))"
      by (simp add: logging_def w')
  qed
  moreover have "int j \<le> n - 1" using Suc.prems(1) by simp
  ultimately obtain w1 where
    "retry_loop env a url (n - 1) m ?w = retry_loop env a url (n - 1 - int j) m w1"
    "tick w1 = tick ?w + 2 * j" "files w1 = files ?w"
    "requests w1 = requests ?w @ replicate j url"
    using Suc.IH[of "n - 1" ?w, OF _ Suc.prems(2)] by blast
  with step w' show ?case
    by (intro exI[of _ w1]) (simp add: logging_def replicate_app_Cons_same algebra_simps)
qed

lemma rows_of_lookup:
  "map_of (rows_of rs m) u =
     (if (u, Saved) \<in> set rs then Some (url_to_filename u) else map_of m u)"
proof (induction rs arbitrary: m)
  case Nil
  then show ?case by (simp add: rows_of_def)
next
  case (Cons r rs)
  obtain v st where r: "r = (v, st)" by (cases r)
  have unfold: "rows_of (r # rs) m =
      rows_of rs (if st = Saved then AList.update v (url_to_filename v) m else m)"
    by (simp add: rows_of_def r)
  show ?case
    unfolding unfold Cons.IH
    by (auto simp: r update_conv')
qed

lemma rows_of_distinct:
  "distinct (map fst m) \<Longrightarrow> distinct (map fst (rows_of rs m))"
proof (induction rs arbitrary: m)
  case Nil
  then show ?case by (simp add: rows_of_def)
next
  case (Cons r rs)
  obtain v st where r: "r = (v, st)" by (cases r)
  have unfold: "rows_of (r # rs) m =
      rows_of rs (if st = Saved then AList.update v (url_to_filename v) m else m)"
    by (simp add: rows_of_def r)
  from Cons.prems have "distinct (map fst (if st = Saved then AList.update v (url_to_filename v) m else m))"
    by (simp add: distinct_update)
  from Cons.IH[OF this] show ?case unfolding unfold .
qed

lemma retry_loop_clock:
  "retry_loop env a url n m w = (st, m', w') \<Longrightarrow>
     tick w \<le> tick w' \<and> tick w + length (requests w') \<le> tick w' + length (requests w)"
proof (induction env a url n m w rule: retry_loop.induct)
  case (1 env a url attempts url_map w)
  show ?case
  proof (cases "attempts > 0")
    case False
    with "1.prems" show ?thesis by (simp add: retry_loop_exhausted)
  next
    case True
    obtain r m1 w1 where att: "attempt env a url url_map w = (r, m1, w1)"
      by (cases "attempt env a url url_map w") auto
    note rq = attempt_requests[OF att] and tk = attempt_tick[OF att]
    show ?thesis
    proof (cases r)
      case (Return s)
      with True att "1.prems" have "w' = w1"
        by (simp add: retry_loop_step_return)
      with rq tk show ?thesis by simp
    next
      case (Raise e)
      with True att "1.prems" have
        "retry_loop env a url (attempts - 1) m1
           (logging (Error_fetching url e (attempts - 1)) w1) = (st, m', w')"
        by (simp add: retry_loop_step_raise)
      from "1.IH"[OF True att[symmetric] _ _ this] Raise rq tk show ?thesis
        by (simp add: logging_def)
    qed
  qed
qed

lemma process_entry_clock:
  assumes "process_entry env url lastmod a m w = (r, m', w')"
  shows "tick w \<le> tick w' \<and> tick w + length (requests w') \<le> tick w' + length (requests w)"
proof (cases "skip_check env a lastmod")
  case True
  with assms show ?thesis by (simp add: process_entry_def)
next
  case False
  with assms obtain st where "retry_loop env a url (retries a) m w = (st, m', w')"
    by (auto simp: process_entry_def split: prod.splits)
  then show ?thesis by (rule retry_loop_clock)
qed

lemma run_entries_clock:
  "run_entries env a es m w = (rs, m', w') \<Longrightarrow>
     tick w \<le> tick w' \<and> tick w + length (requests w') \<le> tick w' + length (requests w)"
proof (induction es arbitrary: m w rs m' w')
  case Nil
  then show ?case by simp
next
  case (Cons x es)
  obtain url lm where x: "x = (url, lm)" by (cases x)
  obtain r m1 w1 where pe: "process_entry env url lm a m w = (r, m1, w1)"
    by (cases "process_entry env url lm a m w") auto
  obtain rs2 m2 w2 where re:
    "run_entries env a es m1 (logging (Outcome (snd r) (fst r)) w1) = (rs2, m2, w2)"
    by (cases "run_entries env a es m1 (logging (Outcome (snd r) (fst r)) w1)") auto
  from Cons.prems x pe re have eq: "w' = w2" by simp
  from Cons.IH[OF re] process_entry_clock[OF pe] eq show ?case
    by (simp add: logging_def)
qed

lemma startup_ok:
  assumes "startup env a0 w = (Inr (a, es), w1)"
  shows "output_dir a = output_dir a0 \<and> tick w1 = tick w + 2 \<and>
         requests w1 = requests w @ [sitemap_url a0] \<and> files w1 = files w \<and> 0 < workers a0"
  using assms
  by (auto simp: startup_def makedirs_def fetch_url_def Let_def
      split: if_splits sum.splits prod.splits)

lemma marker_path_neq_mapping_path:
  "path_join d LAST_RUN_FILE \<noteq> path_join d MAPPING_FILE"
  by (simp add: path_join_def LAST_RUN_FILE_def MAPPING_FILE_def lit_def)

lemmas run_defs = process_entry_def skip_check_def attempt_def fetch_url_def store_def
  write_file_def logging_def Let_def

section \<open>The skip check\<close>

text \<open>
  Claim C1, as the code has it. \<open>process_entry\<close> answers \<open>'skipped'\<close> if and only if the run
  is not forced, the marker of the last run is present and not zero, \<open>lastmod\<close> is present,
  not empty and parses, and the parsed timestamp is at most the marker. A skipped entry
  leaves the mapping and the world as they were, so no request is made for it. Every other
  entry goes on to the retry loop, which makes at least one request when the retry budget
  is positive; this covers the timestamp that does not parse and the run without a marker.
\<close>

theorem process_entry_skip_iff:
  assumes "process_entry env url lastmod a m w = ((u, st), m', w')"
  shows "u = url \<and>
    (st = Skipped \<longleftrightarrow>
       \<not> force a \<and>
       (\<exists>t lm ts. last_run_time a = Some t \<and> t \<noteq> 0 \<and> lastmod = Some lm \<and> lm \<noteq> [] \<and>
          strptime_mktime env lm = Some ts \<and> ts \<le> t)) \<and>
    (st = Skipped \<longrightarrow> m' = m \<and> w' = w) \<and>
    (st \<noteq> Skipped \<and> 0 < retries a \<longrightarrow>
       (\<exists>k>0. requests w' = requests w @ replicate k url))"
proof -
  have cond: "skip_check env a lastmod \<longleftrightarrow>
       \<not> force a \<and>
       (\<exists>t lm ts. last_run_time a = Some t \<and> t \<noteq> 0 \<and> lastmod = Some lm \<and> lm \<noteq> [] \<and>
          strptime_mktime env lm = Some ts \<and> ts \<le> t)"
    by (auto simp: skip_check_def split: option.splits)
  show ?thesis
  proof (cases "skip_check env a lastmod")
    case True
    with assms have "u = url" "st = Skipped" "m' = m" "w' = w"
      by (simp_all add: process_entry_def)
    with True cond show ?thesis by simp
  next
    case False
    with assms have loop: "retry_loop env a url (retries a) m w = (st, m', w')"
      and u: "u = url"
      by (auto simp: process_entry_def split: prod.splits)
    from retry_loop_not_skipped[OF loop] have ns: "st \<noteq> Skipped" .
    from retry_loop_requests[OF loop]
    have "0 < retries a \<longrightarrow> (\<exists>k>0. requests w' = requests w @ replicate k url)" by blast
    with ns u False cond show ?thesis by simp
  qed
qed

text \<open>The entry of 2020 under a marker of 2021 is skipped, for the reasons the theorem
  gives.\<close>

theorem process_entry_skip_iff_witness:
  "process_entry example_env (lit ''http://a/2'') (Some (lit ''2020-01-01T00:00:00+00:00''))
      example_args [] world0 = ((lit ''http://a/2'', Skipped), [], world0) \<and>
   \<not> force example_args \<and>
   (\<exists>t lm ts. last_run_time example_args = Some t \<and> t \<noteq> 0 \<and>
      Some (lit ''2020-01-01T00:00:00+00:00'') = Some lm \<and> lm \<noteq> [] \<and>
      strptime_mktime example_env lm = Some ts \<and> ts \<le> t)"
proof -
  have h: "process_entry example_env (lit ''http://a/2'')
      (Some (lit ''2020-01-01T00:00:00+00:00'')) example_args [] world0 =
      ((lit ''http://a/2'', Skipped), [], world0)"
    by (simp add: process_entry_def skip_check_def example_env_def example_args_def lit_def)
  from process_entry_skip_iff[OF h] h show ?thesis by blast
qed

text \<open>
  Claim C1 as it is worded fails on a marker that exists and is zero: the run is not
  forced, the marker is \<open>0.0\<close>, \<open>lastmod\<close> parses to \<open>0.0 \<le> 0.0\<close>, and yet the entry is
  fetched and saved, because \<open>args.last_run_time\<close> is tested for truth.
\<close>

theorem process_entry_zero_marker_counterexample:
  "\<not> force (example_args\<lparr>last_run_time := Some 0\<rparr>) \<and>
   last_run_time (example_args\<lparr>last_run_time := Some 0\<rparr>) = Some 0 \<and>
   strptime_mktime example_env (lit ''1970-01-01T00:00:00+00:00'') = Some 0 \<and>
   (0 :: real) \<le> 0 \<and>
   fst (process_entry example_env (lit ''http://a/1'')
          (Some (lit ''1970-01-01T00:00:00+00:00''))
          (example_args\<lparr>last_run_time := Some 0\<rparr>) [] world0) = (lit ''http://a/1'', Saved)"
  by (simp add: process_entry_def skip_check_def example_env_def example_args_def lit_def
      world0_def attempt_def fetch_url_def store_def write_file_def Let_def)

section \<open>Retry exhaustion\<close>

text \<open>
  Claim C2. An entry that is not skipped and whose request raises at each of the
  \<open>retries\<close> attempts is classified \<open>'error'\<close>, never \<open>'saved'\<close>, after exactly \<open>retries\<close>
  requests for its URL: the first attempt counts against the budget. Nothing is written
  and the mapping is left as it was. (A budget below one makes no request at all.)
\<close>

theorem retry_exhaustion:
  assumes "\<not> skip_check env a lastmod"
    and "\<forall>i < nat (retries a). isl (http_get env url (tick w + i))"
  shows "\<exists>w'. process_entry env url lastmod a m w = ((url, Error), m, w') \<and>
           requests w' = requests w @ replicate (nat (retries a)) url \<and>
           files w' = files w"
proof (cases "0 \<le> retries a")
  case True
  then have "int (nat (retries a)) \<le> retries a" by simp
  from retry_loop_fetch_failures[OF this assms(2), of a m]
  obtain w1 where "retry_loop env a url (retries a) m w =
      retry_loop env a url (retries a - int (nat (retries a))) m w1"
    "files w1 = files w" "requests w1 = requests w @ replicate (nat (retries a)) url"
    by blast
  with True assms(1) show ?thesis
    by (simp add: process_entry_def retry_loop_exhausted)
next
  case False
  with assms(1) show ?thesis
    by (simp add: process_entry_def retry_loop_exhausted)
qed

text \<open>With a server that always answers 503 and a budget of three, three requests are
  made and the entry ends in \<open>'error'\<close>.\<close>

theorem retry_exhaustion_witness:
  "\<not> skip_check (example_env\<lparr>http_get := \<lambda>u t. Inl (RequestException 503)\<rparr>)
       example_args None \<and>
   list_all
     (\<lambda>i. isl (http_get (example_env\<lparr>http_get := \<lambda>u t. Inl (RequestException 503)\<rparr>)
             (lit ''http://a/1'') (tick world0 + i)))
     [0..<nat (retries example_args)] \<and>
   (\<exists>w'. process_entry (example_env\<lparr>http_get := \<lambda>u t. Inl (RequestException 503)\<rparr>)
            (lit ''http://a/1'') None example_args [] world0 =
              ((lit ''http://a/1'', Error), [], w') \<and>
          requests w' = requests world0 @ replicate 3 (lit ''http://a/1'') \<and>
          files w' = files world0)"
  using retry_exhaustion[of "example_env\<lparr>http_get := \<lambda>u t. Inl (RequestException 503)\<rparr>"
      example_args None "lit ''http://a/1''" world0 "[]"]
  by (simp add: skip_check_def example_args_def list_all_iff)

section \<open>Who writes the mapping\<close>

text \<open>
  Claim C3, as the code has it. The mapping is written by \<open>process_entry\<close> itself: the call
  adds the row of its URL and artifact name exactly when it answers \<open>'saved'\<close>, and leaves
  the mapping as it was otherwise. The loop of \<open>main\<close> over the completed entries writes
  nothing of its own: after a run, the mapping holds the rows of the \<open>'saved'\<close> outcomes
  as the workers wrote them, and no others.
\<close>

theorem url_map_written_by_process_entry:
  "(process_entry env url lastmod a m w = ((u, st), m', w') \<longrightarrow>
      m' = (if st = Saved then AList.update url (url_to_filename url) m else m)) \<and>
   (run_entries env a es m0 w0 = (rs, m1, w1) \<longrightarrow> m1 = rows_of rs m0)"
  using process_entry_url_map run_entries_rows by blast

theorem url_map_written_by_process_entry_witness:
  "\<exists>w'. process_entry example_env (lit ''http://a/1'') None example_args [] world0 =
     ((lit ''http://a/1'', Saved),
      AList.update (lit ''http://a/1'') (url_to_filename (lit ''http://a/1'')) [], w')"
proof -
  have "\<exists>w'. process_entry example_env (lit ''http://a/1'') None example_args [] world0 =
     ((lit ''http://a/1'', Saved),
      [(lit ''http://a/1'', url_to_filename (lit ''http://a/1''))], w')"
    by (simp add: process_entry_def skip_check_def example_env_def example_args_def
      world0_def attempt_def fetch_url_def store_def write_file_def Let_def)
  then obtain w' where h: "process_entry example_env (lit ''http://a/1'') None example_args []
      world0 = ((lit ''http://a/1'', Saved),
        [(lit ''http://a/1'', url_to_filename (lit ''http://a/1''))], w')" ..
  from url_map_written_by_process_entry[of example_env "lit ''http://a/1''" None example_args
      "[]" world0 "lit ''http://a/1''" Saved _ w'] h
  show ?thesis by (intro exI[of _ w']) auto
qed

text \<open>
  Claim C3 as it is worded fails: called with an empty mapping on a page that it saves,
  \<open>process_entry\<close> hands back the mapping with a row in it.
\<close>

theorem process_entry_mutates_url_map:
  "fst (snd (process_entry example_env (lit ''http://a/1'') None example_args [] world0)) =
     [(lit ''http://a/1'', url_to_filename (lit ''http://a/1''))] \<and>
   fst (snd (process_entry example_env (lit ''http://a/1'') None example_args [] world0)) \<noteq> []"
  by (simp add: process_entry_def skip_check_def example_env_def example_args_def
      world0_def attempt_def fetch_url_def store_def write_file_def Let_def)

section \<open>The content transformer\<close>

text \<open>
  Claim C4. Take an entry that is not skipped and whose request succeeds within the retry
  budget, after \<open>j\<close> requests that raised. If cleanup is requested and available and the
  transformer raises on the payload, and the artifact file can be written, then
  \<open>process_entry\<close> answers \<open>'saved'\<close>, the artifact holds the bytes that were fetched,
  unchanged, and no further request is made: the failure of the transformer neither ends
  the attempt nor reaches the caller.
\<close>

theorem transformer_failure_keeps_original:
  assumes "\<not> skip_check env a lastmod"
    and "int j < retries a"
    and "\<forall>i<j. isl (http_get env url (tick w + i))"
    and "http_get env url (tick w + j) = Inr content"
    and "readability a" and "have_readability env"
    and "summary env content = Inl e"
    and "\<not> os_error env (Open_write (path_join (output_dir a) (url_to_filename url)))
           (Suc (tick w + j))"
  shows "\<exists>w'. process_entry env url lastmod a m w =
            ((url, Saved), AList.update url (url_to_filename url) m, w') \<and>
          files w' =
            (files w)(path_join (output_dir a) (url_to_filename url) \<mapsto> Artifact content) \<and>
          requests w' = requests w @ replicate (Suc j) url"
proof -
  from assms(2) have "int j \<le> retries a" by simp
  from retry_loop_fetch_failures[OF this assms(3), of a m]
  obtain w1 where loop: "retry_loop env a url (retries a) m w =
      retry_loop env a url (retries a - int j) m w1"
    and w1: "tick w1 = tick w + j" "files w1 = files w"
      "requests w1 = requests w @ replicate j url"
    by blast
  from assms(4,8) w1 have "http_get env url (tick w1) = Inr content"
    "\<not> os_error env (Open_write (path_join (output_dir a) (url_to_filename url)))
           (Suc (tick w1))" by simp_all
  from attempt_summary_fails[OF this(1) assms(5,6,7) this(2), of m]
  obtain w' where att: "attempt env a url m w1 =
      (Return Saved, AList.update url (url_to_filename url) m, w')"
    and w': "files w' =
      (files w1)(path_join (output_dir a) (url_to_filename url) \<mapsto> Artifact content)"
      "requests w' = requests w1 @ [url]"
    by blast
  from assms(2) have "0 < retries a - int j" by simp
  from retry_loop_step_return[OF this att] loop assms(1) w1 w' show ?thesis
    by (simp add: process_entry_def replicate_append_same)
qed

text \<open>The first request fails, the second brings three bytes on which the cleaner raises:
  the three bytes are saved.\<close>

theorem transformer_failure_keeps_original_witness:
  "\<not> skip_check flaky_env (example_args\<lparr>readability := True\<rparr>) None \<and>
   int 1 < retries (example_args\<lparr>readability := True\<rparr>) \<and>
   list_all (\<lambda>i. isl (http_get flaky_env (lit ''http://a/1'') (tick world0 + i))) [0..<1] \<and>
   http_get flaky_env (lit ''http://a/1'') (tick world0 + 1) = Inr [0x3C, 0x70, 0x3E] \<and>
   readability (example_args\<lparr>readability := True\<rparr>) \<and>
   have_readability flaky_env \<and>
   summary flaky_env [0x3C, 0x70, 0x3E] = Inl ReadabilityError \<and>
   (\<exists>w'. process_entry flaky_env (lit ''http://a/1'') None
            (example_args\<lparr>readability := True\<rparr>) [] world0 =
            ((lit ''http://a/1'', Saved),
             AList.update (lit ''http://a/1'') (url_to_filename (lit ''http://a/1'')) [], w') \<and>
          files w' =
            (files world0)(path_join (output_dir (example_args\<lparr>readability := True\<rparr>))
               (url_to_filename (lit ''http://a/1'')) \<mapsto> Artifact [0x3C, 0x70, 0x3E]) \<and>
          requests w' = requests world0 @ replicate (Suc 1) (lit ''http://a/1''))"
  using transformer_failure_keeps_original[where env = flaky_env
      and a = "example_args\<lparr>readability := True\<rparr>" and lastmod = None and j = 1
      and url = "lit ''http://a/1''" and w = world0 and content = "[0x3C, 0x70, 0x3E]"
      and e = ReadabilityError and m = "[]"]
  by (simp add: skip_check_def example_args_def example_env_def flaky_env_def world0_def
      list_all_iff)

text \<open>
  Claim C5. Take an entry that is not skipped and whose request succeeds within the retry
  budget, after \<open>j\<close> requests that raised. If cleanup is requested and the readability
  library is not installed, \<open>process_entry\<close> answers \<open>'error'\<close> right after that request:
  there are \<open>j + 1\<close> requests and \<open>j + 1\<close> log records, the last of them the error about the
  missing library and not the warning that goes with a unit of the budget, and no file and
  no row of the mapping is written. The error ends this entry only: the run of this entry
  and the entries behind it is this outcome followed by the run of those entries, each of
  them processed in its turn, from the mapping and the world that this entry leaves.
\<close>

theorem readability_unavailable:
  assumes "\<not> skip_check env a lastmod"
    and "int j < retries a"
    and "\<forall>i<j. isl (http_get env url (tick w + i))"
    and "http_get env url (tick w + j) = Inr content"
    and "readability a" and "\<not> have_readability env"
  shows "\<exists>w'. process_entry env url lastmod a m w = ((url, Error), m, w') \<and>
          files w' = files w \<and>
          requests w' = requests w @ replicate (Suc j) url \<and>
          length (log w') = length (log w) + Suc j \<and>
          last (log w') = Readability_not_installed \<and>
          run_entries env a ((url, lastmod) # es) m w =
            (case run_entries env a es m (logging (Outcome Error url) w') of
               (rs, m2, w2) \<Rightarrow> ((url, Error) # rs, m2, w2))"
proof -
  from assms(2) have "int j \<le> retries a" by simp
  from retry_loop_fetch_failures[OF this assms(3), of a m]
  obtain w1 where loop: "retry_loop env a url (retries a) m w =
      retry_loop env a url (retries a - int j) m w1"
    and w1: "tick w1 = tick w + j" "files w1 = files w"
      "requests w1 = requests w @ replicate j url" "length (log w1) = length (log w) + j"
    by blast
  let ?w = "logging Readability_not_installed
              (w1\<lparr>tick := Suc (tick w1), requests := requests w1 @ [url]\<rparr>)"
  from assms(4) w1 have "http_get env url (tick w1) = Inr content" by simp
  from attempt_readability_missing[OF this assms(5,6)]
  have att: "attempt env a url m w1 = (Return Error, m, ?w)" .
  from assms(2) have "0 < retries a - int j" by simp
  from retry_loop_step_return[OF this att] loop assms(1)
  have pe: "process_entry env url lastmod a m w = ((url, Error), m, ?w)"
    by (simp add: process_entry_def)
  then have "run_entries env a ((url, lastmod) # es) m w =
      (case run_entries env a es m (logging (Outcome Error url) ?w) of
         (rs, m2, w2) \<Rightarrow> ((url, Error) # rs, m2, w2))"
    by simp
  with pe w1 show ?thesis
    by (intro exI[of _ ?w]) (simp add: logging_def replicate_append_same)
qed

text \<open>Without the library, the first page ends in \<open>'error'\<close> after its one request, and the
  run goes on to the second page, which is requested in its turn.\<close>

theorem readability_unavailable_witness:
  "\<not> skip_check (example_env\<lparr>have_readability := False\<rparr>)
       (example_args\<lparr>readability := True\<rparr>) None \<and>
   int 0 < retries (example_args\<lparr>readability := True\<rparr>) \<and>
   http_get (example_env\<lparr>have_readability := False\<rparr>) (lit ''http://a/1'') (tick world0 + 0) =
     Inr (encode_utf8 (lit ''http://a/1'')) \<and>
   readability (example_args\<lparr>readability := True\<rparr>) \<and>
   \<not> have_readability (example_env\<lparr>have_readability := False\<rparr>) \<and>
   (\<exists>w'. process_entry (example_env\<lparr>have_readability := False\<rparr>) (lit ''http://a/1'') None
            (example_args\<lparr>readability := True\<rparr>) [] world0 =
            ((lit ''http://a/1'', Error), [], w') \<and>
          files w' = files world0 \<and>
          requests w' = [lit ''http://a/1''] \<and>
          log w' = [Readability_not_installed] \<and>
          (\<exists>w2. run_entries (example_env\<lparr>have_readability := False\<rparr>)
              (example_args\<lparr>readability := True\<rparr>)
              [(lit ''http://a/1'', None), (lit ''http://a/2'', None)] [] world0 =
                ([(lit ''http://a/1'', Error), (lit ''http://a/2'', Error)], [], w2) \<and>
             requests w2 = [lit ''http://a/1'', lit ''http://a/2''] \<and>
             run_entries (example_env\<lparr>have_readability := False\<rparr>)
              (example_args\<lparr>readability := True\<rparr>)
              [(lit ''http://a/2'', None)] [] (logging (Outcome Error (lit ''http://a/1'')) w') =
                ([(lit ''http://a/2'', Error)], [], w2)))"
proof -
  let ?env = "example_env\<lparr>have_readability := False\<rparr>"
  let ?a = "example_args\<lparr>readability := True\<rparr>"
  let ?w' = "logging Readability_not_installed
      (world0\<lparr>tick := 1, requests := [lit ''http://a/1'']\<rparr>)"
  from readability_unavailable[where env = ?env and a = ?a and lastmod = None and j = 0
      and url = "lit ''http://a/1''" and w = world0
      and content = "encode_utf8 (lit ''http://a/1'')"
      and es = "[(lit ''http://a/2'', None)]" and m = "[]"]
  obtain w' where pe: "process_entry ?env (lit ''http://a/1'') None ?a [] world0 =
        ((lit ''http://a/1'', Error), [], w')"
    and run: "run_entries ?env ?a ((lit ''http://a/1'', None) # [(lit ''http://a/2'', None)]) []
        world0 =
      (case run_entries ?env ?a [(lit ''http://a/2'', None)] []
              (logging (Outcome Error (lit ''http://a/1'')) w') of
         (rs, m2, w2) \<Rightarrow> ((lit ''http://a/1'', Error) # rs, m2, w2))"
    by (auto simp: skip_check_def example_args_def example_env_def world0_def)
  have "process_entry ?env (lit ''http://a/1'') None ?a [] world0 =
        ((lit ''http://a/1'', Error), [], ?w')"
    by (simp add: run_defs example_args_def example_env_def world0_def)
  with pe have w': "w' = ?w'" by simp
  have rest: "\<exists>w2. run_entries ?env ?a [(lit ''http://a/2'', None)] []
        (logging (Outcome Error (lit ''http://a/1'')) ?w') =
      ([(lit ''http://a/2'', Error)], [], w2) \<and>
      requests w2 = [lit ''http://a/1'', lit ''http://a/2'']"
    by (simp add: run_defs example_args_def example_env_def world0_def)
  then obtain w2 where w2: "run_entries ?env ?a [(lit ''http://a/2'', None)] []
        (logging (Outcome Error (lit ''http://a/1'')) ?w') =
      ([(lit ''http://a/2'', Error)], [], w2)"
    "requests w2 = [lit ''http://a/1'', lit ''http://a/2'']" by blast
  from run w2 w' have all: "run_entries ?env ?a
      [(lit ''http://a/1'', None), (lit ''http://a/2'', None)] [] world0 =
      ([(lit ''http://a/1'', Error), (lit ''http://a/2'', Error)], [], w2)"
    by simp
  have hyps: "\<not> skip_check ?env ?a None" "int 0 < retries ?a"
    "http_get ?env (lit ''http://a/1'') (tick world0 + 0) = Inr (encode_utf8 (lit ''http://a/1''))"
    "readability ?a" "\<not> have_readability ?env"
    by (simp_all add: skip_check_def example_args_def example_env_def)
  from pe w' w2 all hyps show ?thesis
    by (intro conjI exI[of _ ?w'] exI[of _ w2]) (simp_all add: logging_def world0_def)
qed

section \<open>A failure after the fetch\<close>

text \<open>
  Claim C10. Take an entry that is not skipped, with cleanup either off or available. If
  at each attempt the request succeeds and opening the artifact file raises, each such
  exception costs one unit of the budget and the next attempt starts again with a request:
  \<open>retries\<close> requests are made in all, nothing is written, and the entry ends in
  \<open>'error'\<close> although every request succeeded.
\<close>

theorem write_failure_consumes_retry:
  assumes "\<not> skip_check env a lastmod"
    and "readability a \<longrightarrow> have_readability env"
    and "\<forall>i < nat (retries a).
           \<not> isl (http_get env url (tick w + 2 * i)) \<and>
           os_error env (Open_write (path_join (output_dir a) (url_to_filename url)))
             (Suc (tick w + 2 * i))"
  shows "\<exists>w'. process_entry env url lastmod a m w = ((url, Error), m, w') \<and>
           requests w' = requests w @ replicate (nat (retries a)) url \<and>
           files w' = files w"
proof (cases "0 \<le> retries a")
  case True
  then have "int (nat (retries a)) \<le> retries a" by simp
  from retry_loop_write_failures[OF this assms(2,3), of m]
  obtain w1 where "retry_loop env a url (retries a) m w =
      retry_loop env a url (retries a - int (nat (retries a))) m w1"
    "files w1 = files w" "requests w1 = requests w @ replicate (nat (retries a)) url"
    by blast
  with True assms(1) show ?thesis
    by (simp add: process_entry_def retry_loop_exhausted)
next
  case False
  with assms(1) show ?thesis
    by (simp add: process_entry_def retry_loop_exhausted)
qed

text \<open>On a file system that refuses every write, a budget of three gives three requests
  and \<open>'error'\<close>.\<close>

theorem write_failure_consumes_retry_witness:
  "\<not> skip_check read_only_env example_args None \<and>
   list_all
     (\<lambda>i. \<not> isl (http_get read_only_env (lit ''http://a/1'') (tick world0 + 2 * i)) \<and>
          os_error read_only_env
            (Open_write (path_join (output_dir example_args) (url_to_filename (lit ''http://a/1''))))
            (Suc (tick world0 + 2 * i)))
     [0..<nat (retries example_args)] \<and>
   (\<exists>w'. process_entry read_only_env (lit ''http://a/1'') None example_args [] world0 =
            ((lit ''http://a/1'', Error), [], w') \<and>
          requests w' = requests world0 @ replicate 3 (lit ''http://a/1'') \<and>
          files w' = files world0)"
  using write_failure_consumes_retry[where env = read_only_env and a = example_args
      and lastmod = None and url = "lit ''http://a/1''" and w = world0 and m = "[]"]
  by (simp add: skip_check_def example_args_def example_env_def read_only_env_def world0_def
      list_all_iff)

section \<open>The mapping after a run\<close>

text \<open>
  Claim C6. \<open>main\<close> starts the run with an empty mapping. When all entries have been
  processed, a URL has a row in the mapping if and only if some outcome for that URL was
  \<open>'saved'\<close>; a URL whose outcomes are all \<open>'skipped'\<close> or \<open>'error'\<close> has none. The row of a
  saved URL holds the artifact name of that URL, and no URL has two rows. Every entry has
  its outcome, in the order of the entries.
\<close>

theorem url_mapping_iff_saved:
  assumes "run_entries env a es [] w = (rs, m, w')"
  shows "(u \<in> fst ` set m \<longleftrightarrow> (u, Saved) \<in> set rs) \<and>
         map_of m u = (if (u, Saved) \<in> set rs then Some (url_to_filename u) else None) \<and>
         distinct (map fst m) \<and>
         map fst rs = map fst es"
proof -
  from run_entries_rows[OF assms] have m: "m = rows_of rs []" and k: "map fst rs = map fst es"
    by simp_all
  have look: "map_of m u = (if (u, Saved) \<in> set rs then Some (url_to_filename u) else None)"
    unfolding m by (simp add: rows_of_lookup)
  have "u \<in> fst ` set m \<longleftrightarrow> map_of m u \<noteq> None"
    by (simp add: map_of_eq_None_iff)
  with look have "u \<in> fst ` set m \<longleftrightarrow> (u, Saved) \<in> set rs" by simp
  moreover have "distinct (map fst m)" unfolding m by (rule rows_of_distinct) simp
  ultimately show ?thesis using look k by simp
qed

text \<open>Of two pages, the first fails and the second is saved: the mapping has the one row of
  the second.\<close>

theorem url_mapping_iff_saved_witness:
  "\<exists>m w'. run_entries half_env (example_args\<lparr>last_run_time := None\<rparr>)
       [(lit ''http://a/1'', None), (lit ''http://a/2'', None)] [] world0 =
       ([(lit ''http://a/1'', Error), (lit ''http://a/2'', Saved)], m, w') \<and>
     lit ''http://a/2'' \<in> fst ` set m \<and>
     lit ''http://a/1'' \<notin> fst ` set m \<and>
     map_of m (lit ''http://a/2'') = Some (url_to_filename (lit ''http://a/2'')) \<and>
     distinct (map fst m)"
proof -
  have "\<exists>m w'. run_entries half_env (example_args\<lparr>last_run_time := None\<rparr>)
       [(lit ''http://a/1'', None), (lit ''http://a/2'', None)] [] world0 =
       ([(lit ''http://a/1'', Error), (lit ''http://a/2'', Saved)], m, w')"
    by (simp add: run_defs half_env_def example_env_def example_args_def world0_def lit_def)
  then obtain m w' where h: "run_entries half_env (example_args\<lparr>last_run_time := None\<rparr>)
       [(lit ''http://a/1'', None), (lit ''http://a/2'', None)] [] world0 =
       ([(lit ''http://a/1'', Error), (lit ''http://a/2'', Saved)], m, w')" by blast
  from url_mapping_iff_saved[OF h, of "lit ''http://a/2''"]
    url_mapping_iff_saved[OF h, of "lit ''http://a/1''"] h
  show ?thesis by (intro exI[of _ m] exI[of _ w']) (simp add: lit_def)
qed

section \<open>The end of the run\<close>

text \<open>
  Claim C7, as the code has it. Take a run whose start succeeds, and let all its entries
  be processed, with whatever outcomes. \<open>main\<close> then opens the marker file, reads the clock,
  writes the marker, and opens and writes the mapping file, so the time in the marker is
  read when every entry is done, at a tick that comes after the run's start and after
  every request of the entries. What is persisted depends on the two opens alone: when
  neither raises, the marker holds that time and the mapping file holds the mapping of the
  run; when the open of the marker raises, \<open>main\<close> ends with that exception and neither
  file is written; when only the open of the mapping raises, the marker is written and the
  mapping is not.
\<close>

theorem run_marker_after_entries:
  assumes "startup env a0 w = (Inr (a, es), w1)"
    and "run_entries env a es [] w1 = (rs, m, w2)"
  shows "main env a0 w =
      (if os_error env (Open_write (path_join (output_dir a0) LAST_RUN_FILE)) (tick w2)
       then (Inl OSError, w2\<lparr>tick := tick w2 + 1\<rparr>)
       else if os_error env (Open_write (path_join (output_dir a0) MAPPING_FILE)) (tick w2 + 2)
       then (Inl OSError,
             w2\<lparr>tick := tick w2 + 3,
                files := (files w2)
                  (path_join (output_dir a0) LAST_RUN_FILE \<mapsto>
                     Run_marker (Some (clock env (tick w2 + 1))))\<rparr>)
       else (Inr rs,
             w2\<lparr>tick := tick w2 + 3,
                files := (files w2)
                  (path_join (output_dir a0) LAST_RUN_FILE \<mapsto>
                     Run_marker (Some (clock env (tick w2 + 1))),
                   path_join (output_dir a0) MAPPING_FILE \<mapsto> Mapping_csv m)\<rparr>)) \<and>
    tick w < tick w2 \<and>
    tick w1 + length (requests w2) \<le> tick w2 + length (requests w1)"
proof -
  note st = startup_ok[OF assms(1)]
  note ck = run_entries_clock[OF assms(2)]
  from st ck have later: "tick w < tick w2" by simp
  from assms st later ck show ?thesis
    by (simp add: main_def persist_def save_last_run_def time_time_def write_mapping_def
        write_file_def Let_def)
qed

text \<open>A run over two pages of which the first ends in \<open>'error'\<close>: the start takes the ticks 0
  and 1, the entries the ticks 2 to 6, the marker file is opened at tick 7 and holds the
  time of tick 8, and the mapping file has the row of the second page.\<close>

theorem run_marker_after_entries_witness:
  "\<exists>a w1 m w2.
     startup half_env (example_args\<lparr>limit := Some 2\<rparr>) world0 =
       (Inr (a, [(lit ''http://a/1'', None),
                 (lit ''http://a/2'', Some (lit ''2020-01-01T00:00:00+00:00''))]), w1) \<and>
     run_entries half_env a
       [(lit ''http://a/1'', None), (lit ''http://a/2'', Some (lit ''2020-01-01T00:00:00+00:00''))]
       [] w1 = ([(lit ''http://a/1'', Error), (lit ''http://a/2'', Saved)], m, w2) \<and>
     tick w2 = 7 \<and>
     fst (main half_env (example_args\<lparr>limit := Some 2\<rparr>) world0) =
       Inr [(lit ''http://a/1'', Error), (lit ''http://a/2'', Saved)] \<and>
     files (snd (main half_env (example_args\<lparr>limit := Some 2\<rparr>) world0))
       (lit ''tmp/.last_run.json'') = Some (Run_marker (Some 1700000008)) \<and>
     files (snd (main half_env (example_args\<lparr>limit := Some 2\<rparr>) world0))
       (lit ''tmp/url_mapping.csv'') =
       Some (Mapping_csv [(lit ''http://a/2'', url_to_filename (lit ''http://a/2''))])"
proof -
  let ?a = "example_args\<lparr>limit := Some 2, last_run_time := None\<rparr>"
  let ?w1 = "world0\<lparr>tick := 2, requests := [lit ''http://a/sitemap.xml'']\<rparr>"
  let ?es = "[(lit ''http://a/1'', None),
              (lit ''http://a/2'', Some (lit ''2020-01-01T00:00:00+00:00''))]"
  let ?rs = "[(lit ''http://a/1'', Error), (lit ''http://a/2'', Saved)]"
  have st: "startup half_env (example_args\<lparr>limit := Some 2\<rparr>) world0 = (Inr (?a, ?es), ?w1)"
    by (simp add: startup_def makedirs_def load_last_run_def fetch_url_def parse_sitemap_def
        apply_limit_def slice_to_def strip_def isspace_def Let_def
        half_env_def example_env_def example_args_def world0_def lit_def)
  have "\<exists>m w2. run_entries half_env ?a ?es [] ?w1 = (?rs, m, w2) \<and> tick w2 = 7 \<and>
      m = [(lit ''http://a/2'', url_to_filename (lit ''http://a/2''))]"
    by (simp add: run_defs half_env_def example_env_def example_args_def world0_def lit_def)
  then obtain m w2 where re: "run_entries half_env ?a ?es [] ?w1 = (?rs, m, w2)"
    and t: "tick w2 = 7" and m: "m = [(lit ''http://a/2'', url_to_filename (lit ''http://a/2''))]"
    by blast
  have p: "path_join (output_dir (example_args\<lparr>limit := Some 2\<rparr>)) LAST_RUN_FILE =
        lit ''tmp/.last_run.json''"
      "path_join (output_dir (example_args\<lparr>limit := Some 2\<rparr>)) MAPPING_FILE =
        lit ''tmp/url_mapping.csv''"
    by (simp_all add: path_join_def LAST_RUN_FILE_def MAPPING_FILE_def example_args_def lit_def)
  have ok: "\<not> os_error half_env c k" for c k
    by (simp add: half_env_def example_env_def)
  have ne: "lit ''tmp/.last_run.json'' \<noteq> lit ''tmp/url_mapping.csv''"
    by (simp add: lit_def)
  from run_marker_after_entries[OF st re]
  have "main half_env (example_args\<lparr>limit := Some 2\<rparr>) world0 =
      (Inr ?rs,
       w2\<lparr>tick := tick w2 + 3,
          files := (files w2)
            (lit ''tmp/.last_run.json'' \<mapsto> Run_marker (Some (clock half_env (tick w2 + 1))),
             lit ''tmp/url_mapping.csv'' \<mapsto> Mapping_csv m)\<rparr>)"
    unfolding p by (simp add: ok)
  with st re t m ne show ?thesis
    by (intro exI[of _ ?a] exI[of _ ?w1] exI[of _ m] exI[of _ w2])
      (simp add: half_env_def example_env_def)
qed

text \<open>
  Claim C7 as it is worded, with the marker and the mapping always persisted, fails when
  the marker file cannot be opened: the start succeeds, the one entry is fetched and its
  artifact saved, and \<open>main\<close> ends in \<open>OSError\<close> with no marker and no mapping on the disk.
\<close>

theorem marker_not_persisted_counterexample:
  "fst (startup no_marker_env (example_args\<lparr>limit := Some 1\<rparr>) world0) =
     Inr (example_args\<lparr>limit := Some 1, last_run_time := None\<rparr>, [(lit ''http://a/1'', None)]) \<and>
   fst (main no_marker_env (example_args\<lparr>limit := Some 1\<rparr>) world0) = Inl OSError \<and>
   files (snd (main no_marker_env (example_args\<lparr>limit := Some 1\<rparr>) world0))
     (lit ''tmp/f9b968e7dbf1f88ba0cf909900bebfd6.html'') =
     Some (Artifact (encode_utf8 (lit ''http://a/1''))) \<and>
   files (snd (main no_marker_env (example_args\<lparr>limit := Some 1\<rparr>) world0))
     (lit ''tmp/.last_run.json'') = None \<and>
   files (snd (main no_marker_env (example_args\<lparr>limit := Some 1\<rparr>) world0))
     (lit ''tmp/url_mapping.csv'') = None"
proof -
  have name: "url_to_filename [104, 116, 116, 112, 58, 47, 47, 97, 47, 49] =
      lit ''f9b968e7dbf1f88ba0cf909900bebfd6.html''"
    using url_to_filename_page1 by (simp add: lit_def)
  show ?thesis
    by (simp add: main_def persist_def save_last_run_def time_time_def write_mapping_def
        startup_def makedirs_def load_last_run_def parse_sitemap_def
        apply_limit_def slice_to_def strip_def isspace_def run_defs
        name path_join_def LAST_RUN_FILE_def MAPPING_FILE_def
        no_marker_env_def example_env_def example_args_def world0_def lit_def)
qed

section \<open>The limit\<close>

text \<open>What \<open>--limit\<close> does, for each of its values.\<close>

lemma apply_limit_cases:
  "apply_limit a es =
     (case limit a of
        None \<Rightarrow> es
      | Some n \<Rightarrow>
          if n = 0 then es
          else if 0 < n then take (min (nat n) (length es)) es
          else take (length es - nat (- n)) es)"
proof (cases "limit a")
  case None
  then show ?thesis by (simp add: apply_limit_def)
next
  case (Some n)
  have "take (nat n) es = take (min (nat n) (length es)) es"
    by (simp add: min_def)
  moreover have "nat (int (length es) + n) = length es - nat (- n)" if "n < 0"
    using that by linarith
  ultimately show ?thesis using Some
    by (simp add: apply_limit_def slice_to_def)
qed

text \<open>
  Claim C9 at \<open>--limit 0\<close> on the sitemap of five pages: the claim has no entry scheduled,
  the first \<open>min(0, 5)\<close>; the program schedules and saves all five, because
  \<open>if args.limit:\<close> is false for zero.
\<close>

theorem limit_zero_schedules_all:
  "fst (startup example_env (example_args\<lparr>limit := Some 0\<rparr>) world0) =
     Inr (example_args\<lparr>limit := Some 0, last_run_time := None\<rparr>,
          [(lit ''http://a/1'', None),
           (lit ''http://a/2'', Some (lit ''2020-01-01T00:00:00+00:00'')),
           (lit ''http://a/3'', Some (lit ''yesterday'')),
           (lit ''http://a/4'', None),
           (lit ''http://a/5'', None)]) \<and>
   fst (main example_env (example_args\<lparr>limit := Some 0\<rparr>) world0) =
     Inr [(lit ''http://a/1'', Saved), (lit ''http://a/2'', Saved), (lit ''http://a/3'', Saved),
          (lit ''http://a/4'', Saved), (lit ''http://a/5'', Saved)]"
  by (simp add: main_def persist_def save_last_run_def time_time_def write_mapping_def
      startup_def makedirs_def load_last_run_def parse_sitemap_def
      apply_limit_def slice_to_def strip_def isspace_def run_defs
      example_env_def example_args_def world0_def lit_def)

end
